theory Spec2Isabelle
  imports Complex_Main "HOL-Library.Stream" "HOL-Library.Signed_Division"
begin

section \<open>Conventions of the embedding\<close>

text \<open>
  The program is \<^verbatim>\<open>src/arcadegame.py\<close>. Python integers are \<open>int\<close>. Python floats
  are modelled by exact real numbers: rounding of IEEE doubles is outside the model.
  A class is a record whose fields keep the attribute names (prefixed where two classes
  share an attribute name), a method is a function that takes the object and returns the
  updated object, and an exception is the left injection of a sum.

  The ambient state the methods read is made explicit:
  \<^item> \<^verbatim>\<open>pygame.time.get_ticks()\<close>: a method that reads the clock takes the reading as
    its argument \<open>current_time\<close>; at the level of the game the future readings form the
    stream \<open>clock\<close>, and every read takes the head of the stream;
  \<^item> the module \<^verbatim>\<open>random\<close>: the future uniform variates form the stream \<open>rng\<close>, and
    every call of \<^verbatim>\<open>random.random\<close>, \<^verbatim>\<open>uniform\<close>, \<^verbatim>\<open>randint\<close> or \<^verbatim>\<open>choice\<close>
    takes the head of the stream;
  \<^item> \<^verbatim>\<open>Config.SCREEN_WIDTH\<close> and \<^verbatim>\<open>Config.SCREEN_HEIGHT\<close> are assigned by the resize
    event, so they are state; methods that read them take them as arguments.

  The library \<^verbatim>\<open>pygame\<close> is not part of the repository; \<open>Rect\<close> follows the
  behaviour of pygame 2.6 (integer fields, a float assigned to a field is rounded to the
  nearest integer; earlier releases differ there). Coordinates are unbounded integers.
\<close>

datatype py_error = ValueError | ZeroDivisionError | IndexError

datatype GameState = OPENING_CRAWL | MENU | PLAYING | CUTSCENE | GAME_OVER

datatype PowerUpType = SHIELD | RAPID_FIRE | SLOW_TIME | MULTI_LIFE

datatype key = K_a | K_LEFT | K_d | K_RIGHT | K_w | K_UP | K_s | K_DOWN | K_SPACE | K_LSHIFT

type_synonym keys = "key \<Rightarrow> bool"

type_synonym color = "int \<times> int \<times> int"

subsection \<open>Config\<close>

definition PLAYER_SPEED :: int where [simp]: "PLAYER_SPEED = 5"
definition PLAYER_FRAME_DELAY :: int where [simp]: "PLAYER_FRAME_DELAY = 5"
definition DASH_DISTANCE :: int where [simp]: "DASH_DISTANCE = 80"
definition DASH_COOLDOWN :: int where [simp]: "DASH_COOLDOWN = 1000"
definition CUTSCENE_TRIGGER_SCORE :: int where [simp]: "CUTSCENE_TRIGGER_SCORE = 1000"
definition PROJECTILE_SIZE :: "int \<times> int" where [simp]: "PROJECTILE_SIZE = (20, 10)"
definition PROJECTILE_SPEED :: int where [simp]: "PROJECTILE_SPEED = 7"
definition PROJECTILE_FIRE_DELAY :: int where [simp]: "PROJECTILE_FIRE_DELAY = 14"
definition POWERUP_SPAWN_CHANCE :: real where [simp]: "POWERUP_SPAWN_CHANCE = 0.002"
definition POWERUP_SIZE :: int where [simp]: "POWERUP_SIZE = 25"
definition POWERUP_DURATION :: int where [simp]: "POWERUP_DURATION = 5000"
definition INITIAL_LIVES :: int where [simp]: "INITIAL_LIVES = 3"
definition CUTSCENE_MESSAGE_DURATION :: int where [simp]: "CUTSCENE_MESSAGE_DURATION = 3000"
definition DIFFICULTY_INCREASE_SCORE :: int where [simp]: "DIFFICULTY_INCREASE_SCORE = 500"
definition RED :: color where [simp]: "RED = (255, 0, 0)"
definition GREEN :: color where [simp]: "GREEN = (0, 255, 0)"
definition BLUE :: color where [simp]: "BLUE = (0, 100, 255)"
definition PURPLE :: color where [simp]: "PURPLE = (128, 0, 128)"
definition ORANGE :: color where [simp]: "ORANGE = (255, 165, 0)"
definition CYAN :: color where [simp]: "CYAN = (0, 255, 255)"

subsection \<open>Floats assigned to integers\<close>

text \<open>Python's \<^verbatim>\<open>int(v)\<close> truncates towards zero.\<close>

definition trunc :: "real \<Rightarrow> int" where
  "trunc v = (if v < 0 then \<lceil>v\<rceil> else \<lfloor>v\<rfloor>)"

text \<open>A float assigned to a field of a Rect, as in \<^verbatim>\<open>rect.x += 7.5\<close>, is stored
  rounded to the nearest integer, a half going away from zero.\<close>

definition rect_store :: "real \<Rightarrow> int" where
  "rect_store v = (if v < 0 then - round (- v) else round v)"

subsection \<open>The module random\<close>

text \<open>\<^verbatim>\<open>random.random()\<close> returns the next variate, in \<open>[0, 1)\<close>.
  \<^verbatim>\<open>uniform(a, b)\<close> is \<^verbatim>\<open>a + (b - a) * random()\<close>. \<^verbatim>\<open>randint(a, b)\<close> raises
  ValueError on an empty range and otherwise returns an integer of \<open>[a, b]\<close>.\<close>

definition random_random :: "real stream \<Rightarrow> real \<times> real stream" where
  "random_random s = (shd s, stl s)"

definition random_uniform :: "real \<Rightarrow> real \<Rightarrow> real stream \<Rightarrow> real \<times> real stream" where
  "random_uniform a b s = (a + (b - a) * shd s, stl s)"

definition random_randint :: "int \<Rightarrow> int \<Rightarrow> real stream \<Rightarrow> py_error + (int \<times> real stream)" where
  "random_randint a b s =
     (if b < a then Inl ValueError
      else Inr (a + \<lfloor>shd s * real_of_int (b - a + 1)\<rfloor>, stl s))"

text \<open>\<^verbatim>\<open>random.choice(list(PowerUpType))\<close>: the four members in declaration order.\<close>

definition random_choice_PowerUpType :: "real stream \<Rightarrow> PowerUpType \<times> real stream" where
  "random_choice_PowerUpType s =
     (let k = \<lfloor>shd s * 4\<rfloor>
      in ((if k \<le> 0 then SHIELD else if k = 1 then RAPID_FIRE
           else if k = 2 then SLOW_TIME else MULTI_LIFE), stl s))"

subsection \<open>pygame.Rect\<close>

record Rect =
  rect_x :: int
  rect_y :: int
  rect_w :: int
  rect_h :: int

definition pygame_Rect :: "int \<Rightarrow> int \<Rightarrow> int \<Rightarrow> int \<Rightarrow> Rect" where
  "pygame_Rect x y w h = \<lparr>rect_x = x, rect_y = y, rect_w = w, rect_h = h\<rparr>"

definition centerx :: "Rect \<Rightarrow> int" where
  "centerx r = rect_x r + rect_w r div 2"

definition centery :: "Rect \<Rightarrow> int" where
  "centery r = rect_y r + rect_h r div 2"

definition center :: "Rect \<Rightarrow> int \<times> int" where
  "center r = (centerx r, centery r)"

text \<open>Assigning \<^verbatim>\<open>rect.center = (cx, cy)\<close> keeps the size. The rectangles of the
  program take their sizes from images and constants, which are not negative, so the
  half of a size is the same under every rounding.\<close>

definition set_center :: "int \<times> int \<Rightarrow> Rect \<Rightarrow> Rect" where
  "set_center c r = r\<lparr>rect_x := fst c - rect_w r div 2, rect_y := snd c - rect_h r div 2\<rparr>"

text \<open>\<^verbatim>\<open>a.colliderect(b)\<close>: a rectangle of zero width or height collides with nothing.\<close>

definition colliderect :: "Rect \<Rightarrow> Rect \<Rightarrow> bool" where
  "colliderect a b =
     (if rect_w a = 0 \<or> rect_h a = 0 \<or> rect_w b = 0 \<or> rect_h b = 0 then False
      else min (rect_x a) (rect_x a + rect_w a) < max (rect_x b) (rect_x b + rect_w b)
         \<and> min (rect_y a) (rect_y a + rect_h a) < max (rect_y b) (rect_y b + rect_h b)
         \<and> max (rect_x a) (rect_x a + rect_w a) > min (rect_x b) (rect_x b + rect_w b)
         \<and> max (rect_y a) (rect_y a + rect_h a) > min (rect_y b) (rect_y b + rect_h b))"

definition collidepoint :: "Rect \<Rightarrow> int \<times> int \<Rightarrow> bool" where
  "collidepoint r pos =
     (fst pos \<ge> rect_x r \<and> fst pos < rect_x r + rect_w r
      \<and> snd pos \<ge> rect_y r \<and> snd pos < rect_y r + rect_h r)"

text \<open>The truth value of a Rect: both sizes are non-zero.\<close>

definition Rect_bool :: "Rect \<Rightarrow> bool" where
  "Rect_bool r = (rect_w r \<noteq> 0 \<and> rect_h r \<noteq> 0)"

text \<open>\<^verbatim>\<open>r.clamp_ip(a)\<close> moves \<open>r\<close> inside \<open>a\<close>; a rectangle too large for \<open>a\<close> is centred.
  The halves are C divisions.\<close>

definition clamp_ip :: "Rect \<Rightarrow> Rect \<Rightarrow> Rect" where
  "clamp_ip r a =
     (let x = (if rect_w r \<ge> rect_w a then rect_x a + rect_w a sdiv 2 - rect_w r sdiv 2
               else if rect_x r < rect_x a then rect_x a
               else if rect_x r + rect_w r > rect_x a + rect_w a then rect_x a + rect_w a - rect_w r
               else rect_x r);
          y = (if rect_h r \<ge> rect_h a then rect_y a + rect_h a sdiv 2 - rect_h r sdiv 2
               else if rect_y r < rect_y a then rect_y a
               else if rect_y r + rect_h r > rect_y a + rect_h a then rect_y a + rect_h a - rect_h r
               else rect_y r)
      in r\<lparr>rect_x := x, rect_y := y\<rparr>)"

section \<open>Player\<close>

text \<open>\<open>n_frames\<close> is \<^verbatim>\<open>len(self.frames)\<close>. \<open>dash_trail\<close> holds pairs of a position and
  an alpha.\<close>

record Player =
  n_frames :: nat
  current_frame :: nat
  frame_counter :: int
  rect :: Rect
  frozen :: bool
  last_dash_time :: int
  is_dashing :: bool
  dash_trail :: "((real \<times> real) \<times> int) list"
  shield_active :: bool
  shield_end_time :: int
  rapid_fire_active :: bool
  rapid_fire_end_time :: int
  slow_time_active :: bool
  slow_time_end_time :: int

text \<open>\<^verbatim>\<open>Player.__init__(frames, start_pos)\<close>; \<open>fw\<close> and \<open>fh\<close> are the size of the first
  frame. \<^verbatim>\<open>frames[0]\<close> raises IndexError on an empty list.\<close>

definition Player_init :: "nat \<Rightarrow> int \<Rightarrow> int \<Rightarrow> int \<times> int \<Rightarrow> py_error + Player" where
  "Player_init n fw fh start_pos =
     (if n = 0 then Inl IndexError
      else Inr \<lparr>n_frames = n, current_frame = 0, frame_counter = 0,
                rect = set_center start_pos (pygame_Rect 0 0 fw fh),
                frozen = False, last_dash_time = 0, is_dashing = False, dash_trail = [],
                shield_active = False, shield_end_time = 0,
                rapid_fire_active = False, rapid_fire_end_time = 0,
                slow_time_active = False, slow_time_end_time = 0\<rparr>)"

text \<open>\<^verbatim>\<open>Player.update\<close> is three blocks in sequence. The first advances the
  animation; the remainder by \<^verbatim>\<open>len(self.frames)\<close> raises ZeroDivisionError when there
  is no frame.\<close>

definition advance_animation :: "Player \<Rightarrow> py_error + Player" where
  "advance_animation p =
     (if \<not> frozen p then
        (if frame_counter p + 1 \<ge> PLAYER_FRAME_DELAY then
           (if n_frames p = 0 then Inl ZeroDivisionError
            else Inr (p\<lparr>frame_counter := 0,
                        current_frame := (current_frame p + 1) mod n_frames p\<rparr>))
         else Inr (p\<lparr>frame_counter := frame_counter p + 1\<rparr>))
      else Inr p)"

text \<open>The second block, under the comment "Update power-up effects".\<close>

definition expire_effects :: "int \<Rightarrow> Player \<Rightarrow> Player" where
  "expire_effects current_time p =
     (let p2 = (if shield_active p \<and> current_time > shield_end_time p
                then p\<lparr>shield_active := False\<rparr> else p);
          p3 = (if rapid_fire_active p2 \<and> current_time > rapid_fire_end_time p2
                then p2\<lparr>rapid_fire_active := False\<rparr> else p2)
      in (if slow_time_active p3 \<and> current_time > slow_time_end_time p3
          then p3\<lparr>slow_time_active := False\<rparr> else p3))"

text \<open>The third block, under the comment "Update dash trail".\<close>

definition decay_dash_trail :: "Player \<Rightarrow> Player" where
  "decay_dash_trail p =
     (if dash_trail p \<noteq> []
      then p\<lparr>dash_trail := map (\<lambda>(pos, alpha). (pos, alpha - 30))
                               (filter (\<lambda>(pos, alpha). alpha > 0) (dash_trail p))\<rparr>
      else p)"

definition Player_update :: "int \<Rightarrow> Player \<Rightarrow> py_error + Player" where
  "Player_update current_time p =
     (case advance_animation p of
        Inl e \<Rightarrow> Inl e
      | Inr p1 \<Rightarrow> Inr (decay_dash_trail (expire_effects current_time p1)))"

text \<open>\<^verbatim>\<open>Player.move\<close>; \<open>W\<close> and \<open>H\<close> are the screen size.\<close>

definition Player_move :: "keys \<Rightarrow> int \<Rightarrow> int \<Rightarrow> Player \<Rightarrow> Player" where
  "Player_move ks W H p =
     (if frozen p then p
      else
        (let speed = (if slow_time_active p then real_of_int PLAYER_SPEED * 1.5
                      else real_of_int PLAYER_SPEED);
             r0 = rect p;
             r1 = (if ks K_a \<or> ks K_LEFT
                   then r0\<lparr>rect_x := rect_store (real_of_int (rect_x r0) - speed)\<rparr> else r0);
             r2 = (if ks K_d \<or> ks K_RIGHT
                   then r1\<lparr>rect_x := rect_store (real_of_int (rect_x r1) + speed)\<rparr> else r1);
             r3 = (if ks K_w \<or> ks K_UP
                   then r2\<lparr>rect_y := rect_store (real_of_int (rect_y r2) - speed)\<rparr> else r2);
             r4 = (if ks K_s \<or> ks K_DOWN
                   then r3\<lparr>rect_y := rect_store (real_of_int (rect_y r3) + speed)\<rparr> else r3)
         in p\<lparr>rect := clamp_ip r4 (pygame_Rect 0 0 W H)\<rparr>))"

text \<open>\<^verbatim>\<open>Player.dash\<close>: the result is the returned flag and the player.\<close>

definition Player_dash :: "int \<Rightarrow> keys \<Rightarrow> int \<Rightarrow> int \<Rightarrow> Player \<Rightarrow> bool \<times> Player" where
  "Player_dash current_time ks W H p =
     (if current_time - last_dash_time p > DASH_COOLDOWN \<and> (ks K_SPACE \<or> ks K_LSHIFT) then
        (let dx1 = (if ks K_a \<or> ks K_LEFT then - 1 else (0::real));
             dx2 = (if ks K_d \<or> ks K_RIGHT then 1 else dx1);
             dy1 = (if ks K_w \<or> ks K_UP then - 1 else (0::real));
             dy2 = (if ks K_s \<or> ks K_DOWN then 1 else dy1);
             dx3 = (if dx2 = 0 \<and> dy2 = 0 then 1 else dx2);
             dx = (if dx3 \<noteq> 0 \<and> dy2 \<noteq> 0 then dx3 * 0.707 else dx3);
             dy = (if dx3 \<noteq> 0 \<and> dy2 \<noteq> 0 then dy2 * 0.707 else dy2);
             old_pos = center (rect p);
             r1 = (rect p)\<lparr>rect_x := rect_x (rect p)
                                             + trunc (dx * real_of_int DASH_DISTANCE)\<rparr>;
             r2 = r1\<lparr>rect_y := rect_y r1 + trunc (dy * real_of_int DASH_DISTANCE)\<rparr>;
             r3 = clamp_ip r2 (pygame_Rect 0 0 W H);
             trail = map (\<lambda>i. ((real_of_int (fst old_pos)
                                   + real_of_int (centerx r3 - fst old_pos) * (real i / 5),
                                 real_of_int (snd old_pos)
                                   + real_of_int (centery r3 - snd old_pos) * (real i / 5)),
                                150 - int i * 30)) [0..<5]
         in (True, p\<lparr>rect := r3, dash_trail := dash_trail p @ trail,
                      last_dash_time := current_time\<rparr>))
      else (False, p))"

text \<open>\<^verbatim>\<open>Player.activate_powerup\<close>.\<close>

definition Player_activate_powerup :: "int \<Rightarrow> PowerUpType \<Rightarrow> Player \<Rightarrow> Player" where
  "Player_activate_powerup current_time powerup_type p =
     (if powerup_type = SHIELD
      then p\<lparr>shield_active := True, shield_end_time := current_time + POWERUP_DURATION\<rparr>
      else if powerup_type = RAPID_FIRE
      then p\<lparr>rapid_fire_active := True, rapid_fire_end_time := current_time + POWERUP_DURATION\<rparr>
      else if powerup_type = SLOW_TIME
      then p\<lparr>slow_time_active := True, slow_time_end_time := current_time + POWERUP_DURATION\<rparr>
      else p)"

definition Player_freeze :: "bool \<Rightarrow> Player \<Rightarrow> Player" where
  "Player_freeze b p = p\<lparr>frozen := b\<rparr>"

section \<open>Projectile and ProjectileManager\<close>

record Projectile =
  proj_rect :: Rect
  proj_speed :: real
  trail_positions :: "(int \<times> int) list"

definition Projectile_init :: "int \<Rightarrow> int \<Rightarrow> real \<Rightarrow> Projectile" where
  "Projectile_init x y speed_multiplier =
     \<lparr>proj_rect = pygame_Rect x y (fst PROJECTILE_SIZE) (snd PROJECTILE_SIZE),
      proj_speed = real_of_int PROJECTILE_SPEED * speed_multiplier,
      trail_positions = []\<rparr>"

text \<open>\<^verbatim>\<open>Projectile.update\<close>: the flag says that the projectile is still on the screen.\<close>

definition Projectile_update :: "real \<Rightarrow> int \<Rightarrow> Projectile \<Rightarrow> bool \<times> Projectile" where
  "Projectile_update time_multiplier W pr =
     (let tp = trail_positions pr @ [center (proj_rect pr)];
          tp' = (if length tp > 5 then tl tp else tp);
          r = (proj_rect pr)\<lparr>rect_x := rect_store (real_of_int (rect_x (proj_rect pr))
                                                + proj_speed pr * time_multiplier)\<rparr>
      in (rect_x r \<le> W, pr\<lparr>trail_positions := tp', proj_rect := r\<rparr>))"

record ProjectileManager =
  projectiles :: "Projectile list"
  fire_counter :: int
  pm_active :: bool
  difficulty_multiplier :: real

definition ProjectileManager_init :: ProjectileManager where
  "ProjectileManager_init =
     \<lparr>projectiles = [], fire_counter = 0, pm_active = True, difficulty_multiplier = 1.0\<rparr>"

text \<open>The local \<^verbatim>\<open>fire_delay\<close> of \<^verbatim>\<open>ProjectileManager.update\<close>; the division is
  guarded by its caller below.\<close>

definition fire_delay :: "Player \<Rightarrow> ProjectileManager \<Rightarrow> real" where
  "fire_delay pl pm =
     (let fd = real_of_int PROJECTILE_FIRE_DELAY / difficulty_multiplier pm
      in if rapid_fire_active pl then fd * 2 else fd)"

text \<open>The spawning loop \<^verbatim>\<open>for _ in range(num_projectiles)\<close>.\<close>

fun spawn_projectiles ::
  "nat \<Rightarrow> int \<Rightarrow> real \<Rightarrow> Projectile list \<Rightarrow> real stream
     \<Rightarrow> py_error + (Projectile list \<times> real stream)" where
  "spawn_projectiles 0 H dm ps s = Inr (ps, s)"
| "spawn_projectiles (Suc n) H dm ps s =
     (case random_randint 0 (H - snd PROJECTILE_SIZE) s of
        Inl e \<Rightarrow> Inl e
      | Inr (random_y, s1) \<Rightarrow>
          (case random_uniform 0.8 1.2 s1 of
             (u, s2) \<Rightarrow> spawn_projectiles n H dm (ps @ [Projectile_init 0 random_y (u * dm)]) s2))"

text \<open>\<^verbatim>\<open>ProjectileManager.update\<close>. Dividing by a zero multiplier raises.\<close>

definition ProjectileManager_update ::
  "Player \<Rightarrow> int \<Rightarrow> int \<Rightarrow> real stream \<Rightarrow> ProjectileManager
     \<Rightarrow> py_error + (ProjectileManager \<times> real stream)" where
  "ProjectileManager_update pl W H s pm =
     (if \<not> pm_active pm then Inr (pm, s)
      else if difficulty_multiplier pm = 0 then Inl ZeroDivisionError
      else
        (let time_multiplier = (if slow_time_active pl then 0.3 else 1.0)
         in case (if real_of_int (fire_counter pm + 1) \<ge> fire_delay pl pm then
                    (case spawn_projectiles (if difficulty_multiplier pm < 2 then 1 else 2)
                            H (difficulty_multiplier pm) (projectiles pm) s of
                       Inl e \<Rightarrow> Inl e
                     | Inr (ps, s1) \<Rightarrow> Inr (pm\<lparr>fire_counter := 0, projectiles := ps\<rparr>, s1))
                  else Inr (pm\<lparr>fire_counter := fire_counter pm + 1\<rparr>, s)) of
              Inl e \<Rightarrow> Inl e
            | Inr (pm1, s1) \<Rightarrow>
                Inr (pm1\<lparr>projectiles :=
                            map snd (filter fst (map (Projectile_update time_multiplier W)
                                                     (projectiles pm1)))\<rparr>, s1)))"

text \<open>The loop of \<^verbatim>\<open>check_collision\<close> returns at the first colliding projectile:
  \<open>first_collision\<close> is its index, \<open>del_at\<close> is \<^verbatim>\<open>del self.projectiles[i]\<close>.\<close>

fun first_collision :: "Rect \<Rightarrow> Projectile list \<Rightarrow> nat option" where
  "first_collision player_rect [] = None"
| "first_collision player_rect (q # qs) =
     (if colliderect (proj_rect q) player_rect then Some 0
      else map_option Suc (first_collision player_rect qs))"

definition del_at :: "nat \<Rightarrow> 'a list \<Rightarrow> 'a list" where
  "del_at i xs = take i xs @ drop (Suc i) xs"

definition check_collision ::
  "Rect \<Rightarrow> Player \<Rightarrow> ProjectileManager \<Rightarrow> bool \<times> ProjectileManager" where
  "check_collision player_rect pl pm =
     (if shield_active pl then (False, pm)
      else (case first_collision player_rect (projectiles pm) of
              Some i \<Rightarrow> (True, pm\<lparr>projectiles := del_at i (projectiles pm)\<rparr>)
            | None \<Rightarrow> (False, pm)))"

definition update_difficulty :: "int \<Rightarrow> ProjectileManager \<Rightarrow> ProjectileManager" where
  "update_difficulty score pm =
     pm\<lparr>difficulty_multiplier :=
          1.0 + real_of_int (score div DIFFICULTY_INCREASE_SCORE) * 0.3\<rparr>"

definition ProjectileManager_clear :: "ProjectileManager \<Rightarrow> ProjectileManager" where
  "ProjectileManager_clear pm = pm\<lparr>projectiles := []\<rparr>"

definition set_active :: "bool \<Rightarrow> ProjectileManager \<Rightarrow> ProjectileManager" where
  "set_active b pm = pm\<lparr>pm_active := b\<rparr>"

section \<open>Particle and ParticleSystem\<close>

record Particle =
  part_x :: real
  part_y :: real
  part_color :: color
  part_vx :: real
  part_vy :: real
  lifetime :: int
  max_lifetime :: int
  part_size :: int

text \<open>\<^verbatim>\<open>Particle.__init__\<close> draws the size.\<close>

definition Particle_init ::
  "real \<Rightarrow> real \<Rightarrow> color \<Rightarrow> real \<times> real \<Rightarrow> int \<Rightarrow> real stream
     \<Rightarrow> py_error + (Particle \<times> real stream)" where
  "Particle_init x y c velocity lt s =
     (case random_randint 2 5 s of
        Inl e \<Rightarrow> Inl e
      | Inr (sz, s1) \<Rightarrow>
          Inr (\<lparr>part_x = x, part_y = y, part_color = c,
                part_vx = fst velocity, part_vy = snd velocity,
                lifetime = lt, max_lifetime = lt, part_size = sz\<rparr>, s1))"

definition Particle_update :: "Particle \<Rightarrow> bool \<times> Particle" where
  "Particle_update pt =
     (let pt' = pt\<lparr>part_x := part_x pt + part_vx pt, part_y := part_y pt + part_vy pt,
                   part_vy := part_vy pt + 0.1, lifetime := lifetime pt - 1\<rparr>
      in (lifetime pt' > 0, pt'))"

record ParticleSystem =
  particles :: "Particle list"

definition ParticleSystem_init :: ParticleSystem where
  "ParticleSystem_init = \<lparr>particles = []\<rparr>"

text \<open>\<^verbatim>\<open>add_explosion\<close>: the loop \<^verbatim>\<open>for _ in range(count)\<close>, then the method with
  its default count of 15.\<close>

fun add_explosion_loop ::
  "nat \<Rightarrow> real \<Rightarrow> real \<Rightarrow> color \<Rightarrow> ParticleSystem \<Rightarrow> real stream
     \<Rightarrow> py_error + (ParticleSystem \<times> real stream)" where
  "add_explosion_loop 0 x y c ps s = Inr (ps, s)"
| "add_explosion_loop (Suc n) x y c ps s =
     (case random_uniform (- 3) 3 s of
        (vx, s1) \<Rightarrow>
          (case random_uniform (- 5) (- 1) s1 of
             (vy, s2) \<Rightarrow>
               (case random_randint 20 40 s2 of
                  Inl e \<Rightarrow> Inl e
                | Inr (lt, s3) \<Rightarrow>
                    (case Particle_init x y c (vx, vy) lt s3 of
                       Inl e \<Rightarrow> Inl e
                     | Inr (pt, s4) \<Rightarrow>
                         add_explosion_loop n x y c (ps\<lparr>particles := particles ps @ [pt]\<rparr>) s4))))"

definition add_explosion ::
  "real \<Rightarrow> real \<Rightarrow> color \<Rightarrow> ParticleSystem \<Rightarrow> real stream
     \<Rightarrow> py_error + (ParticleSystem \<times> real stream)" where
  "add_explosion x y c ps s = add_explosion_loop 15 x y c ps s"

text \<open>\<^verbatim>\<open>add_trail\<close> with its default colour.\<close>

definition add_trail ::
  "real \<Rightarrow> real \<Rightarrow> ParticleSystem \<Rightarrow> real stream \<Rightarrow> py_error + (ParticleSystem \<times> real stream)" where
  "add_trail x y ps s =
     (case random_uniform (- 1) 1 s of
        (vx, s1) \<Rightarrow>
          (case random_uniform (- 1) 1 s1 of
             (vy, s2) \<Rightarrow>
               (case random_randint 10 20 s2 of
                  Inl e \<Rightarrow> Inl e
                | Inr (lt, s3) \<Rightarrow>
                    (case Particle_init x y CYAN (vx, vy) lt s3 of
                       Inl e \<Rightarrow> Inl e
                     | Inr (pt, s4) \<Rightarrow> Inr (ps\<lparr>particles := particles ps @ [pt]\<rparr>, s4)))))"

definition ParticleSystem_update :: "ParticleSystem \<Rightarrow> ParticleSystem" where
  "ParticleSystem_update ps =
     ps\<lparr>particles := map snd (filter fst (map Particle_update (particles ps)))\<rparr>"

section \<open>PowerUp\<close>

record PowerUp =
  pu_type :: PowerUpType
  pu_rect :: Rect
  bob_offset :: real
  spawn_time :: int

text \<open>\<^verbatim>\<open>PowerUp.__init__\<close> draws the type and the phase, then reads the clock.\<close>

definition PowerUp_init :: "int \<Rightarrow> int \<Rightarrow> int \<Rightarrow> real stream \<Rightarrow> PowerUp \<times> real stream" where
  "PowerUp_init x y current_time s =
     (case random_choice_PowerUpType s of
        (ty, s1) \<Rightarrow>
          (case random_uniform 0 (pi * 2) s1 of
             (b, s2) \<Rightarrow>
               (\<lparr>pu_type = ty, pu_rect = pygame_Rect x y POWERUP_SIZE POWERUP_SIZE,
                 bob_offset = b, spawn_time = current_time\<rparr>, s2)))"

text \<open>The colour of \<^verbatim>\<open>self.properties[self.type]\<close>.\<close>

fun powerup_color :: "PowerUpType \<Rightarrow> color" where
  "powerup_color SHIELD = BLUE"
| "powerup_color RAPID_FIRE = RED"
| "powerup_color SLOW_TIME = PURPLE"
| "powerup_color MULTI_LIFE = GREEN"

text \<open>\<^verbatim>\<open>PowerUp.update\<close>: the flag says that the power-up is still alive.\<close>

definition PowerUp_update :: "int \<Rightarrow> PowerUp \<Rightarrow> bool \<times> PowerUp" where
  "PowerUp_update current_time pu =
     (let time_alive = current_time - spawn_time pu;
          r = (pu_rect pu)\<lparr>rect_y :=
                 rect_store (real_of_int (rect_y (pu_rect pu))
                        + sin (real_of_int time_alive * 0.005 + bob_offset pu) * 0.5)\<rparr>
      in (time_alive < 10000, pu\<lparr>pu_rect := r\<rparr>))"

section \<open>Cutscene\<close>

text \<open>\<open>enemy_width\<close> and \<open>enemy_height\<close> are the size of \<^verbatim>\<open>self.enemy_image\<close>;
  there are two messages.\<close>

record Cutscene =
  enemy_width :: int
  enemy_height :: int
  cs_active :: bool
  stage :: int
  timer_start :: int
  enemy_rect :: "Rect option"

definition n_messages :: int where [simp]: "n_messages = 2"

definition Cutscene_init :: "int \<Rightarrow> int \<Rightarrow> Cutscene" where
  "Cutscene_init ew eh =
     \<lparr>enemy_width = ew, enemy_height = eh, cs_active = False, stage = 0, timer_start = 0,
      enemy_rect = None\<rparr>"

definition Cutscene_start :: "int \<Rightarrow> Rect \<Rightarrow> Cutscene \<Rightarrow> Cutscene" where
  "Cutscene_start current_time player_rect cs =
     cs\<lparr>cs_active := True, stage := 0, timer_start := current_time,
        enemy_rect := Some (pygame_Rect (rect_x player_rect - enemy_width cs)
                                        (rect_y player_rect - enemy_height cs div 2)
                                        (enemy_width cs) (enemy_height cs))\<rparr>"

text \<open>\<^verbatim>\<open>Cutscene.update\<close> reads the clock only when the cutscene is active, so it takes
  the stream. The flag says that the cutscene is complete.\<close>

definition Cutscene_update :: "int stream \<Rightarrow> Cutscene \<Rightarrow> bool \<times> Cutscene \<times> int stream" where
  "Cutscene_update c cs =
     (if \<not> cs_active cs then (True, cs, c)
      else
        (let current_time = shd c in
         if current_time - timer_start cs \<ge> CUTSCENE_MESSAGE_DURATION then
           (if stage cs + 1 \<ge> n_messages
            then (True, cs\<lparr>stage := stage cs + 1, cs_active := False\<rparr>, stl c)
            else (False, cs\<lparr>stage := stage cs + 1, timer_start := current_time\<rparr>, stl c))
         else (False, cs, stl c)))"

section \<open>OpeningCrawl\<close>

record OpeningCrawl =
  text_y_positions :: "real list"
  scroll_speed :: real
  skip_timer :: int
  can_skip :: bool

text \<open>\<^verbatim>\<open>OpeningCrawl.__init__\<close> and \<^verbatim>\<open>reset\<close>: the script has 24 lines; \<open>H\<close> is the
  screen height.\<close>

definition OpeningCrawl_init :: "int \<Rightarrow> OpeningCrawl" where
  "OpeningCrawl_init H =
     \<lparr>text_y_positions = map (\<lambda>i. real_of_int (H + int i * 50)) [0..<24],
      scroll_speed = 1.5, skip_timer = 0, can_skip = False\<rparr>"

text \<open>\<^verbatim>\<open>OpeningCrawl.update\<close>; \<^verbatim>\<open>self.text_y_positions[-1]\<close> raises IndexError on an
  empty list.\<close>

definition OpeningCrawl_update :: "OpeningCrawl \<Rightarrow> py_error + (bool \<times> OpeningCrawl)" where
  "OpeningCrawl_update oc =
     (let oc1 = oc\<lparr>text_y_positions := map (\<lambda>y. y - scroll_speed oc) (text_y_positions oc)\<rparr>
      in if text_y_positions oc1 = [] then Inl IndexError
         else if last (text_y_positions oc1) < - 100 then Inr (True, oc1)
         else
           (let oc2 = oc1\<lparr>skip_timer := skip_timer oc1 + 1\<rparr>
            in Inr (False, if skip_timer oc2 > 60 then oc2\<lparr>can_skip := True\<rparr> else oc2)))"

section \<open>Game\<close>

text \<open>Of the assets only the sizes matter: the number and the size of the player's
  frames, the size of the enemy image and of the start button.\<close>

record AssetManager =
  player_frames_len :: nat
  player_frame_size :: "int \<times> int"
  enemy_image_size :: "int \<times> int"
  start_button_size :: "int \<times> int"

text \<open>\<open>call_log\<close> is a history of the calls of \<^verbatim>\<open>start_game\<close>, of
  \<^verbatim>\<open>Cutscene.start\<close> and of the mixer made so far, the latest last; it is not an
  attribute of the class and nothing reads it.\<close>

datatype call =
  Start_game_call | Cutscene_start_call
  | Music_load | Music_play | Music_stop | Hit_sound_play | Game_over_sound_play

text \<open>The attributes of \<^verbatim>\<open>Game\<close> that the update path reads or writes, then the ambient
  state: the screen size of \<^verbatim>\<open>Config\<close>, the clock, the random module, and \<open>mixer\<close>,
  which says for each coming \<^verbatim>\<open>pygame.mixer.music.load\<close> whether it succeeds.\<close>

record Game =
  asset_manager :: AssetManager
  opening_crawl :: OpeningCrawl
  player :: Player
  projectile_manager :: ProjectileManager
  cutscene :: Cutscene
  particle_system :: ParticleSystem
  powerups :: "PowerUp list"
  state :: GameState
  lives :: int
  score :: int
  game_start_time :: int
  cutscene_triggered :: bool
  start_button_rect :: "Rect option"
  screen_shake :: int
  shake_offset :: "int \<times> int"
  SCREEN_WIDTH :: int
  SCREEN_HEIGHT :: int
  clock :: "int stream"
  rng :: "real stream"
  mixer :: "bool stream"
  call_log :: "call list"

text \<open>\<^verbatim>\<open>Game.__init__\<close>, on the initial screen of 900 by 700.\<close>

definition Game_init ::
  "AssetManager \<Rightarrow> int stream \<Rightarrow> real stream \<Rightarrow> bool stream \<Rightarrow> py_error + Game" where
  "Game_init am c s m =
     (case Player_init (player_frames_len am) (fst (player_frame_size am))
             (snd (player_frame_size am)) (900 div 2, 700 div 2) of
        Inl e \<Rightarrow> Inl e
      | Inr pl \<Rightarrow>
          Inr \<lparr>asset_manager = am, opening_crawl = OpeningCrawl_init 700, player = pl,
                projectile_manager = ProjectileManager_init,
                cutscene = Cutscene_init (fst (enemy_image_size am)) (snd (enemy_image_size am)),
                particle_system = ParticleSystem_init, powerups = [],
                state = OPENING_CRAWL, lives = INITIAL_LIVES, score = 0,
                game_start_time = 0, cutscene_triggered = False, start_button_rect = None,
                screen_shake = 0, shake_offset = (0, 0),
                SCREEN_WIDTH = 900, SCREEN_HEIGHT = 700,
                clock = c, rng = s, mixer = m, call_log = []\<rparr>)"

text \<open>\<^verbatim>\<open>start_game\<close>. A failing load raises \<^verbatim>\<open>pygame.error\<close>, which is caught and
  printed, so that \<^verbatim>\<open>play\<close> is not called.\<close>

definition start_game :: "Game \<Rightarrow> Game" where
  "start_game g =
     g\<lparr>state := PLAYING, lives := INITIAL_LIVES, score := 0, cutscene_triggered := False,
       game_start_time := shd (clock g), clock := stl (clock g),
       player := (player g)\<lparr>rect := set_center (SCREEN_WIDTH g div 2, SCREEN_HEIGHT g div 2)
                                                 (rect (player g))\<rparr>,
       projectile_manager := set_active True (ProjectileManager_clear (projectile_manager g)),
       powerups := [], particle_system := ParticleSystem_init,
       mixer := stl (mixer g),
       call_log := call_log g @ (if shd (mixer g) then [Start_game_call, Music_load, Music_play]
                                 else [Start_game_call, Music_load])\<rparr>"

definition reset_game :: "Game \<Rightarrow> Game" where
  "reset_game g = g\<lparr>state := MENU, call_log := call_log g @ [Music_stop]\<rparr>"

definition update_opening_crawl :: "Game \<Rightarrow> py_error + Game" where
  "update_opening_crawl g =
     (case OpeningCrawl_update (opening_crawl g) of
        Inl e \<Rightarrow> Inl e
      | Inr (finished, oc) \<Rightarrow>
          Inr (g\<lparr>opening_crawl := oc, state := (if finished then MENU else state g)\<rparr>))"

subsection \<open>The blocks of update_game\<close>

text \<open>Blocks run in sequence; an exception ends the sequence.\<close>

fun seq_steps :: "('s \<Rightarrow> py_error + 's) list \<Rightarrow> 's \<Rightarrow> py_error + 's" where
  "seq_steps [] g = Inr g"
| "seq_steps (f # fs) g = (case f g of Inl e \<Rightarrow> Inl e | Inr g' \<Rightarrow> seq_steps fs g')"

text \<open>The body of the test "Check for cutscene trigger".\<close>

definition trigger_cutscene :: "Game \<Rightarrow> Game" where
  "trigger_cutscene g =
     g\<lparr>cutscene_triggered := True, state := CUTSCENE,
       cutscene := Cutscene_start (shd (clock g)) (rect (player g)) (cutscene g),
       clock := stl (clock g),
       player := Player_freeze True (player g),
       projectile_manager := set_active False (projectile_manager g),
       call_log := call_log g @ [Cutscene_start_call]\<rparr>"

text \<open>"Handle player input"; \<open>ks\<close> is the result of \<^verbatim>\<open>pygame.key.get_pressed()\<close>.\<close>

definition handle_player_input :: "keys \<Rightarrow> Game \<Rightarrow> py_error + Game" where
  "handle_player_input ks g =
     Inr (g\<lparr>player := Player_move ks (SCREEN_WIDTH g) (SCREEN_HEIGHT g) (player g)\<rparr>)"

text \<open>"Handle dash".\<close>

definition handle_dash :: "keys \<Rightarrow> Game \<Rightarrow> py_error + Game" where
  "handle_dash ks g =
     (case Player_dash (shd (clock g)) ks (SCREEN_WIDTH g) (SCREEN_HEIGHT g) (player g) of
        (dashed, pl) \<Rightarrow>
          (if dashed then
             (case add_trail (real_of_int (centerx (rect pl))) (real_of_int (centery (rect pl)))
                     (particle_system g) (rng g) of
                Inl e \<Rightarrow> Inl e
              | Inr (ps, s) \<Rightarrow>
                  Inr (g\<lparr>player := pl, clock := stl (clock g), particle_system := ps, rng := s\<rparr>))
           else Inr (g\<lparr>player := pl, clock := stl (clock g)\<rparr>)))"

text \<open>The call \<^verbatim>\<open>self.player.update()\<close>.\<close>

definition update_player :: "Game \<Rightarrow> py_error + Game" where
  "update_player g =
     (case Player_update (shd (clock g)) (player g) of
        Inl e \<Rightarrow> Inl e
      | Inr pl \<Rightarrow> Inr (g\<lparr>player := pl, clock := stl (clock g)\<rparr>))"

text \<open>"Update difficulty".\<close>

definition update_game_difficulty :: "Game \<Rightarrow> py_error + Game" where
  "update_game_difficulty g =
     Inr (g\<lparr>projectile_manager := update_difficulty (score g) (projectile_manager g)\<rparr>)"

text \<open>"Update projectiles".\<close>

definition update_projectiles :: "Game \<Rightarrow> py_error + Game" where
  "update_projectiles g =
     (case ProjectileManager_update (player g) (SCREEN_WIDTH g) (SCREEN_HEIGHT g) (rng g)
             (projectile_manager g) of
        Inl e \<Rightarrow> Inl e
      | Inr (pm, s) \<Rightarrow> Inr (g\<lparr>projectile_manager := pm, rng := s\<rparr>))"

text \<open>"Update particles".\<close>

definition update_particles :: "Game \<Rightarrow> py_error + Game" where
  "update_particles g = Inr (g\<lparr>particle_system := ParticleSystem_update (particle_system g)\<rparr>)"

text \<open>"Update power-ups": every \<^verbatim>\<open>p.update()\<close> of the comprehension reads the clock.\<close>

fun update_powerups_loop :: "PowerUp list \<Rightarrow> int stream \<Rightarrow> PowerUp list \<times> int stream" where
  "update_powerups_loop [] c = ([], c)"
| "update_powerups_loop (pu # pus) c =
     (case PowerUp_update (shd c) pu of
        (alive, pu') \<Rightarrow>
          (case update_powerups_loop pus (stl c) of
             (pus', c') \<Rightarrow> ((if alive then pu' # pus' else pus'), c')))"

definition update_powerups :: "Game \<Rightarrow> py_error + Game" where
  "update_powerups g =
     (case update_powerups_loop (powerups g) (clock g) of
        (pus, c) \<Rightarrow> Inr (g\<lparr>powerups := pus, clock := c\<rparr>))"

text \<open>"Spawn power-ups".\<close>

definition spawn_powerups :: "Game \<Rightarrow> py_error + Game" where
  "spawn_powerups g =
     (case random_random (rng g) of
        (u, s1) \<Rightarrow>
          (if u < POWERUP_SPAWN_CHANCE then
             (case random_randint 50 (SCREEN_WIDTH g - 50) s1 of
                Inl e \<Rightarrow> Inl e
              | Inr (x, s2) \<Rightarrow>
                  (case random_randint 50 (SCREEN_HEIGHT g - 50) s2 of
                     Inl e \<Rightarrow> Inl e
                   | Inr (y, s3) \<Rightarrow>
                       (case PowerUp_init x y (shd (clock g)) s3 of
                          (pu, s4) \<Rightarrow>
                            Inr (g\<lparr>powerups := powerups g @ [pu], rng := s4,
                                   clock := stl (clock g)\<rparr>))))
           else Inr (g\<lparr>rng := s1\<rparr>)))"

text \<open>"Check power-up collection": the loop runs over a copy of the list and removes from
  the list itself.\<close>

fun collect_powerups_loop :: "PowerUp list \<Rightarrow> Game \<Rightarrow> py_error + Game" where
  "collect_powerups_loop [] g = Inr g"
| "collect_powerups_loop (pu # pus) g =
     (if colliderect (pu_rect pu) (rect (player g)) then
        (let g1 = (if pu_type pu = MULTI_LIFE then g\<lparr>lives := lives g + 1\<rparr>
                   else g\<lparr>player := Player_activate_powerup (shd (clock g)) (pu_type pu) (player g),
                          clock := stl (clock g)\<rparr>)
         in case add_explosion (real_of_int (centerx (pu_rect pu)))
                   (real_of_int (centery (pu_rect pu)))
                   (powerup_color (pu_type pu)) (particle_system g1) (rng g1) of
              Inl e \<Rightarrow> Inl e
            | Inr (ps, s) \<Rightarrow>
                collect_powerups_loop pus
                  (g1\<lparr>particle_system := ps, rng := s, powerups := remove1 pu (powerups g1)\<rparr>))
      else collect_powerups_loop pus g)"

definition collect_powerups :: "Game \<Rightarrow> py_error + Game" where
  "collect_powerups g = collect_powerups_loop (powerups g) g"

text \<open>"Check collisions".\<close>

definition check_collisions :: "Game \<Rightarrow> py_error + Game" where
  "check_collisions g =
     (case check_collision (rect (player g)) (player g) (projectile_manager g) of
        (hit, pm) \<Rightarrow>
          (let g1 = g\<lparr>projectile_manager := pm\<rparr>
           in if hit then
                (if \<not> shield_active (player g1) then
                   (let g2 = g1\<lparr>lives := lives g1 - 1,
                                call_log := call_log g1 @ [Hit_sound_play],
                                screen_shake := 10\<rparr>
                    in case add_explosion (real_of_int (centerx (rect (player g2))))
                              (real_of_int (centery (rect (player g2)))) RED
                              (particle_system g2) (rng g2) of
                         Inl e \<Rightarrow> Inl e
                       | Inr (ps, s) \<Rightarrow>
                           (let g3 = g2\<lparr>particle_system := ps, rng := s\<rparr>
                            in Inr (if lives g3 \<le> 0
                                    then g3\<lparr>state := GAME_OVER,
                                            call_log := call_log g3
                                                        @ [Music_stop, Game_over_sound_play]\<rparr>
                                    else g3)))
                 else Inr g1)
              else Inr g1))"

text \<open>"Update screen shake".\<close>

definition update_screen_shake :: "Game \<Rightarrow> py_error + Game" where
  "update_screen_shake g =
     (if screen_shake g > 0 then
        (let sh = screen_shake g - 1
         in case random_randint (- sh) sh (rng g) of
              Inl e \<Rightarrow> Inl e
            | Inr (ox, s1) \<Rightarrow>
                (case random_randint (- sh) sh s1 of
                   Inl e \<Rightarrow> Inl e
                 | Inr (oy, s2) \<Rightarrow>
                     Inr (g\<lparr>screen_shake := sh, shake_offset := (ox, oy), rng := s2\<rparr>)))
      else Inr (g\<lparr>shake_offset := (0, 0)\<rparr>))"

text \<open>"Update score".\<close>

definition update_score :: "Game \<Rightarrow> py_error + Game" where
  "update_score g = Inr (g\<lparr>score := score g + 1\<rparr>)"

subsection \<open>update_game, update_cutscene and the main loop\<close>

definition update_game :: "keys \<Rightarrow> Game \<Rightarrow> py_error + Game" where
  "update_game ks g =
     (if state g \<noteq> PLAYING then Inr g
      else if \<not> cutscene_triggered g \<and> score g \<ge> CUTSCENE_TRIGGER_SCORE
      then Inr (trigger_cutscene g)
      else seq_steps [handle_player_input ks, handle_dash ks, update_player,
                      update_game_difficulty, update_projectiles, update_particles,
                      update_powerups, spawn_powerups, collect_powerups, check_collisions,
                      update_screen_shake, update_score] g)"

definition update_cutscene :: "Game \<Rightarrow> Game" where
  "update_cutscene g =
     (case Cutscene_update (clock g) (cutscene g) of
        (finished, cs, c) \<Rightarrow>
          (if finished
           then g\<lparr>cutscene := cs, clock := c, state := PLAYING,
                  player := Player_freeze False (player g),
                  projectile_manager := set_active True (projectile_manager g)\<rparr>
           else g\<lparr>cutscene := cs, clock := c\<rparr>))"

datatype event = QUIT | VIDEORESIZE int int | MOUSEBUTTONDOWN int "int \<times> int" | OTHER_EVENT

text \<open>\<^verbatim>\<open>handle_events\<close>: the flag is the value returned, False on QUIT, which leaves
  the rest of the queue unread.\<close>

fun handle_events :: "event list \<Rightarrow> Game \<Rightarrow> bool \<times> Game" where
  "handle_events [] g = (True, g)"
| "handle_events (QUIT # evs) g = (False, g)"
| "handle_events (VIDEORESIZE w h # evs) g =
     handle_events evs (g\<lparr>SCREEN_WIDTH := w, SCREEN_HEIGHT := h\<rparr>)"
| "handle_events (MOUSEBUTTONDOWN button pos # evs) g =
     handle_events evs
       (if button = 1 then
          (if state g = MENU \<and> (case start_button_rect g of None \<Rightarrow> False | Some r \<Rightarrow> Rect_bool r)
           then (if collidepoint (the (start_button_rect g)) pos then start_game g else g)
           else if state g = GAME_OVER then reset_game g
           else g)
        else g)"
| "handle_events (OTHER_EVENT # evs) g = handle_events evs g"

text \<open>Of the draw pass only what changes the state: the crawl draws 50 stars with three
  \<^verbatim>\<open>randint\<close> each, bounded by the screen size; the menu assigns the rectangle of
  the start button; the game screen reads the clock, twice for an active shield and once
  for the dash indicator.\<close>

definition draw :: "Game \<Rightarrow> py_error + Game" where
  "draw g =
     (if state g = OPENING_CRAWL then
        (if SCREEN_WIDTH g < 0 \<or> SCREEN_HEIGHT g < 0 then Inl ValueError
         else Inr (g\<lparr>rng := sdrop 150 (rng g)\<rparr>))
      else if state g = MENU then
        Inr (g\<lparr>start_button_rect :=
                 Some (set_center (SCREEN_WIDTH g div 2, SCREEN_HEIGHT g div 2)
                         (pygame_Rect 0 0 (fst (start_button_size (asset_manager g)))
                                          (snd (start_button_size (asset_manager g)))))\<rparr>)
      else if state g = PLAYING \<or> state g = CUTSCENE then
        Inr (g\<lparr>clock := sdrop (if shield_active (player g) then 3 else 1) (clock g)\<rparr>)
      else Inr g)"

definition update :: "keys \<Rightarrow> Game \<Rightarrow> py_error + Game" where
  "update ks g =
     (if state g = OPENING_CRAWL then update_opening_crawl g
      else if state g = PLAYING then update_game ks g
      else if state g = CUTSCENE then Inr (update_cutscene g)
      else Inr g)"

text \<open>One turn of the loop of \<^verbatim>\<open>run\<close>; the flag is \<^verbatim>\<open>running\<close>.\<close>

definition run_iteration :: "event list \<Rightarrow> keys \<Rightarrow> Game \<Rightarrow> py_error + (bool \<times> Game)" where
  "run_iteration evs ks g =
     (case handle_events evs g of
        (running, g1) \<Rightarrow>
          (if \<not> running then Inr (False, g1)
           else (case update ks g1 of
                   Inl e \<Rightarrow> Inl e
                 | Inr g2 \<Rightarrow> (case draw g2 of Inl e \<Rightarrow> Inl e | Inr g3 \<Rightarrow> Inr (True, g3)))))"

text \<open>The states of the session: the one built by the constructor, and those at the end
  of a turn of the loop.\<close>

inductive reachable :: "Game \<Rightarrow> bool" where
  init: "Game_init am c s m = Inr g \<Longrightarrow> reachable g"
| turn: "reachable g \<Longrightarrow> run_iteration evs ks g = Inr (b, g') \<Longrightarrow> reachable g'"

text \<open>The part of the call history after the latest call of \<^verbatim>\<open>start_game\<close>.\<close>

definition calls_since_start :: "call list \<Rightarrow> call list" where
  "calls_since_start cl = rev (takeWhile (\<lambda>c. c \<noteq> Start_game_call) (rev cl))"

section \<open>Sample states\<close>

text \<open>A player of 50 by 60 in the middle of the screen, the assets that go with it, and a
  game in the playing state on the initial screen.\<close>

definition sample_player :: Player where
  "sample_player =
     \<lparr>n_frames = 4, current_frame = 0, frame_counter = 0, rect = pygame_Rect 425 320 50 60,
      frozen = False, last_dash_time = 0, is_dashing = False, dash_trail = [],
      shield_active = False, shield_end_time = 0,
      rapid_fire_active = False, rapid_fire_end_time = 0,
      slow_time_active = False, slow_time_end_time = 0\<rparr>"

definition sample_assets :: AssetManager where
  "sample_assets =
     \<lparr>player_frames_len = 4, player_frame_size = (50, 60), enemy_image_size = (64, 64),
      start_button_size = (200, 80)\<rparr>"

definition sample_game :: Game where
  "sample_game =
     \<lparr>asset_manager = sample_assets, opening_crawl = OpeningCrawl_init 700,
      player = sample_player, projectile_manager = ProjectileManager_init,
      cutscene = Cutscene_init 64 64, particle_system = ParticleSystem_init, powerups = [],
      state = PLAYING, lives = INITIAL_LIVES, score = 0, game_start_time = 0,
      cutscene_triggered = False, start_button_rect = None,
      screen_shake = 0, shake_offset = (0, 0), SCREEN_WIDTH = 900, SCREEN_HEIGHT = 700,
      clock = sconst 2000, rng = sconst (1 / 2), mixer = sconst True,
      call_log = [Start_game_call, Music_load, Music_play]\<rparr>"

text \<open>Three projectiles: the first is far from the sample player, the other two overlap
  it.\<close>

definition sample_projectiles :: "Projectile list" where
  "sample_projectiles =
     [Projectile_init 0 100 1, Projectile_init 430 330 1, Projectile_init 440 340 1.2]"

text \<open>No key is held.\<close>

definition no_keys :: keys where
  "no_keys = (\<lambda>k. False)"


text \<open>The playing game with one life left and a projectile on the player; the playing
  game whose score has just reached the trigger, after the update at score 999 set the
  multiplier.\<close>

definition sample_game_last_life :: Game where
  "sample_game_last_life =
     sample_game\<lparr>lives := 1,
                 projectile_manager :=
                   ProjectileManager_init\<lparr>projectiles := [Projectile_init 420 330 1]\<rparr>\<rparr>"

definition sample_game_at_trigger :: Game where
  "sample_game_at_trigger =
     sample_game\<lparr>score := 1000,
                 projectile_manager := update_difficulty 999 ProjectileManager_init\<rparr>"

text \<open>The game with one life left after the first nine blocks of an update with no key
  held: the animation counter and the fire counter have advanced, and the projectile has
  moved by its speed.\<close>

definition sample_game_before_hit :: Game where
  "sample_game_before_hit =
     sample_game_last_life
       \<lparr>player := sample_player\<lparr>frame_counter := 1\<rparr>,
        projectile_manager :=
          \<lparr>projectiles = [\<lparr>proj_rect = pygame_Rect 427 330 20 10, proj_speed = 7,
                           trail_positions = [(430, 335)]\<rparr>],
           fire_counter = 1, pm_active = True, difficulty_multiplier = 1\<rparr>\<rparr>"

text \<open>The session from its construction to the first game: the crawl after \<open>n\<close> updates,
  the game showing it, and the menu that follows the last update of the crawl, drawn
  once.\<close>

definition crawl_after :: "nat \<Rightarrow> OpeningCrawl" where
  "crawl_after n =
     \<lparr>text_y_positions = map (\<lambda>i. real_of_int (700 + int i * 50) - 1.5 * real n) [0..<24],
      scroll_speed = 1.5, skip_timer = int n, can_skip = (60 < n)\<rparr>"

definition sample_crawl_game :: "nat \<Rightarrow> Game" where
  "sample_crawl_game n =
     sample_game\<lparr>state := OPENING_CRAWL, call_log := [], opening_crawl := crawl_after n\<rparr>"

definition sample_menu_game :: Game where
  "sample_menu_game =
     sample_game\<lparr>state := MENU, call_log := [],
                 opening_crawl :=
                   (crawl_after 1300)\<lparr>text_y_positions := text_y_positions (crawl_after 1301)\<rparr>,
                 start_button_rect := Some (pygame_Rect 350 310 200 80)\<rparr>"

section \<open>The invariant of the session\<close>

text \<open>Lives are never negative and are positive while the game is played or in its
  cutscene; since the latest call of \<open>start_game\<close> the cutscene was started once if the
  flag is set and never otherwise; the flag is set only from the trigger score on and is
  not set beyond it.\<close>

definition session_inv :: "Game \<Rightarrow> bool" where
  "session_inv g \<longleftrightarrow>
     0 \<le> lives g
     \<and> (state g = PLAYING \<or> state g = CUTSCENE \<longrightarrow> 0 < lives g)
     \<and> count_list (calls_since_start (call_log g)) Cutscene_start_call
         = (if cutscene_triggered g then 1 else 0)
     \<and> (cutscene_triggered g \<longrightarrow> CUTSCENE_TRIGGER_SCORE \<le> score g)
     \<and> (\<not> cutscene_triggered g \<longrightarrow> score g \<le> CUTSCENE_TRIGGER_SCORE)"

section \<open>Basic facts\<close>

lemma trunc_of_int [simp]: "trunc (real_of_int k) = k"
  by (simp add: trunc_def)

lemma trunc_numeral [simp]: "trunc (numeral n) = numeral n" "trunc 0 = 0" "trunc 1 = 1"
  by (simp_all add: trunc_def)

lemma rect_store_of_int [simp]: "rect_store (real_of_int k) = k"
proof -
  have "round (- real_of_int k) = - k"
    using round_of_int[of "- k", where ?'a = real] by simp
  then show ?thesis by (simp add: rect_store_def)
qed

lemma rect_store_numeral [simp]: "rect_store (numeral n) = numeral n" "rect_store 0 = 0"
  by (simp_all add: rect_store_def)



lemma random_randint_Inr:
  "a \<le> b \<Longrightarrow> random_randint a b s = Inr (a + \<lfloor>shd s * real_of_int (b - a + 1)\<rfloor>, stl s)"
  by (simp add: random_randint_def)

section \<open>Collision of projectiles with the player\<close>

lemma first_collision_None:
  "first_collision r ps = None \<longleftrightarrow> (\<forall>a\<in>set ps. \<not> colliderect (proj_rect a) r)"
  by (induction ps) auto

lemma first_collision_split:
  "(\<forall>a\<in>set pre. \<not> colliderect (proj_rect a) r) \<Longrightarrow> colliderect (proj_rect q) r
   \<Longrightarrow> first_collision r (pre @ q # post) = Some (length pre)"
  by (induction pre) auto

lemma del_at_append: "del_at (length pre) (pre @ q # post) = pre @ post"
  by (simp add: del_at_def)

text \<open>
  C2. While the shield of the player is active, \<open>check_collision\<close> returns False and
  leaves the projectile manager, hence its list of projectiles, as it was, whatever the
  projectiles and the rectangle are.
\<close>

theorem check_collision_shield_active:
  "shield_active pl \<Longrightarrow> check_collision player_rect pl pm = (False, pm)"
  by (simp add: check_collision_def)

theorem check_collision_shield_active_witness:
  "shield_active (sample_player\<lparr>shield_active := True\<rparr>)
   \<and> colliderect (proj_rect (sample_projectiles ! 1)) (rect sample_player)
   \<and> colliderect (proj_rect (sample_projectiles ! 2)) (rect sample_player)
   \<and> check_collision (rect sample_player) (sample_player\<lparr>shield_active := True\<rparr>)
        (ProjectileManager_init\<lparr>projectiles := sample_projectiles\<rparr>)
      = (False, ProjectileManager_init\<lparr>projectiles := sample_projectiles\<rparr>)"
  using check_collision_shield_active
          [of "sample_player\<lparr>shield_active := True\<rparr>" "rect sample_player"
              "ProjectileManager_init\<lparr>projectiles := sample_projectiles\<rparr>"]
  by (simp add: sample_player_def sample_projectiles_def Projectile_init_def colliderect_def
        pygame_Rect_def)

text \<open>
  C3. Without an active shield: when the stored list is \<open>pre @ q # post\<close>, no projectile
  of \<open>pre\<close> overlaps the rectangle and \<open>q\<close> does, \<open>check_collision\<close> returns True and the
  list becomes \<open>pre @ post\<close>, so exactly the first overlapping projectile is removed,
  however many of \<open>post\<close> overlap; when no projectile overlaps, it returns False and
  nothing changes; when some projectile overlaps, the list loses exactly one element.
\<close>

theorem check_collision_removes_first:
  assumes "\<not> shield_active pl"
  shows "(\<forall>pre q post. projectiles pm = pre @ q # post
             \<and> (\<forall>a\<in>set pre. \<not> colliderect (proj_rect a) player_rect)
             \<and> colliderect (proj_rect q) player_rect
           \<longrightarrow> check_collision player_rect pl pm = (True, pm\<lparr>projectiles := pre @ post\<rparr>))
       \<and> ((\<forall>a\<in>set (projectiles pm). \<not> colliderect (proj_rect a) player_rect)
           \<longrightarrow> check_collision player_rect pl pm = (False, pm))
       \<and> ((\<exists>a\<in>set (projectiles pm). colliderect (proj_rect a) player_rect)
           \<longrightarrow> fst (check_collision player_rect pl pm)
             \<and> length (projectiles (snd (check_collision player_rect pl pm))) + 1
               = length (projectiles pm))"
proof (intro conjI allI impI)
  fix pre q post
  assume h: "projectiles pm = pre @ q # post
             \<and> (\<forall>a\<in>set pre. \<not> colliderect (proj_rect a) player_rect)
             \<and> colliderect (proj_rect q) player_rect"
  then have "first_collision player_rect (projectiles pm) = Some (length pre)"
    by (simp add: first_collision_split)
  with assms h show "check_collision player_rect pl pm = (True, pm\<lparr>projectiles := pre @ post\<rparr>)"
    by (simp add: check_collision_def del_at_append)
next
  assume "\<forall>a\<in>set (projectiles pm). \<not> colliderect (proj_rect a) player_rect"
  then have "first_collision player_rect (projectiles pm) = None"
    by (simp add: first_collision_None)
  with assms show "check_collision player_rect pl pm = (False, pm)"
    by (simp add: check_collision_def)
next
  assume "\<exists>a\<in>set (projectiles pm). colliderect (proj_rect a) player_rect"
  then obtain pre q post where sp: "projectiles pm = pre @ q # post"
      "colliderect (proj_rect q) player_rect"
      "\<forall>a\<in>set pre. \<not> colliderect (proj_rect a) player_rect"
    using split_list_first_prop
            [of "projectiles pm" "\<lambda>a. colliderect (proj_rect a) player_rect"]
    by blast
  then have fc: "first_collision player_rect (projectiles pm) = Some (length pre)"
    by (simp add: first_collision_split)
  with assms sp show "fst (check_collision player_rect pl pm)"
    by (simp add: check_collision_def)
  from fc assms sp
  show "length (projectiles (snd (check_collision player_rect pl pm))) + 1
        = length (projectiles pm)"
    by (simp add: check_collision_def del_at_append)
qed

theorem check_collision_removes_first_witness:
  "\<not> shield_active sample_player
   \<and> \<not> colliderect (proj_rect (Projectile_init 0 100 1)) (rect sample_player)
   \<and> colliderect (proj_rect (Projectile_init 430 330 1)) (rect sample_player)
   \<and> colliderect (proj_rect (Projectile_init 440 340 1.2)) (rect sample_player)
   \<and> check_collision (rect sample_player) sample_player
        (ProjectileManager_init\<lparr>projectiles := sample_projectiles\<rparr>)
      = (True, ProjectileManager_init
                 \<lparr>projectiles := [Projectile_init 0 100 1, Projectile_init 440 340 1.2]\<rparr>)
   \<and> check_collision (rect sample_player) sample_player
        (ProjectileManager_init\<lparr>projectiles := [Projectile_init 0 100 1]\<rparr>)
      = (False, ProjectileManager_init\<lparr>projectiles := [Projectile_init 0 100 1]\<rparr>)"
proof -
  have ns: "\<not> shield_active sample_player"
    by (simp add: sample_player_def)
  have c0: "\<not> colliderect (proj_rect (Projectile_init 0 100 1)) (rect sample_player)"
    by (simp add: sample_player_def Projectile_init_def colliderect_def pygame_Rect_def)
  have c1: "colliderect (proj_rect (Projectile_init 430 330 1)) (rect sample_player)"
    by (simp add: sample_player_def Projectile_init_def colliderect_def pygame_Rect_def)
  have c2: "colliderect (proj_rect (Projectile_init 440 340 1.2)) (rect sample_player)"
    by (simp add: sample_player_def Projectile_init_def colliderect_def pygame_Rect_def)
  have a: "check_collision (rect sample_player) sample_player
             (ProjectileManager_init\<lparr>projectiles := sample_projectiles\<rparr>)
           = (True, ProjectileManager_init
                      \<lparr>projectiles := [Projectile_init 0 100 1, Projectile_init 440 340 1.2]\<rparr>)"
    using check_collision_removes_first
            [OF ns, of "ProjectileManager_init\<lparr>projectiles := sample_projectiles\<rparr>"
                       "rect sample_player", THEN conjunct1, rule_format,
             of "[Projectile_init 0 100 1]" "Projectile_init 430 330 1"
                "[Projectile_init 440 340 1.2]"]
          c0 c1
    by (simp add: sample_projectiles_def)
  have b: "check_collision (rect sample_player) sample_player
             (ProjectileManager_init\<lparr>projectiles := [Projectile_init 0 100 1]\<rparr>)
           = (False, ProjectileManager_init\<lparr>projectiles := [Projectile_init 0 100 1]\<rparr>)"
    using check_collision_removes_first
            [OF ns, of "ProjectileManager_init\<lparr>projectiles := [Projectile_init 0 100 1]\<rparr>"
                       "rect sample_player", THEN conjunct2, THEN conjunct1]
          c0
    by simp
  from ns c0 c1 c2 a b show ?thesis by blast
qed

section \<open>Difficulty\<close>

lemma difficulty_nonzero: "1.0 + real_of_int k * 0.3 \<noteq> 0"
proof
  assume "1.0 + real_of_int k * 0.3 = 0"
  then have "real_of_int (10 + 3 * k) = 0" by simp
  then have "10 + 3 * k = 0" by (simp only: of_int_eq_0_iff)
  then show False by presburger
qed

text \<open>
  C6. For every integer \<open>sc\<close>, \<open>update_difficulty\<close> sets the multiplier to
  \<open>1.0 + floor (sc / 500) * 0.3\<close>; the multiplier does not decrease when the score grows,
  is constant on each interval from \<open>500 * k\<close> to \<open>500 * k + 499\<close>, and is 1.0 at 0 and
  at 499, 1.3 at 500 and 1.6 at 1000.
\<close>

theorem update_difficulty_step_function:
  "difficulty_multiplier (update_difficulty sc pm)
     = 1.0 + real_of_int \<lfloor>real_of_int sc / 500\<rfloor> * 0.3
   \<and> (sc \<le> sc' \<longrightarrow> difficulty_multiplier (update_difficulty sc pm)
                     \<le> difficulty_multiplier (update_difficulty sc' pm))
   \<and> (500 * k \<le> sc \<and> sc \<le> 500 * k + 499
        \<longrightarrow> difficulty_multiplier (update_difficulty sc pm) = 1.0 + real_of_int k * 0.3)
   \<and> difficulty_multiplier (update_difficulty 0 pm) = 1.0
   \<and> difficulty_multiplier (update_difficulty 499 pm) = 1.0
   \<and> difficulty_multiplier (update_difficulty 500 pm) = 1.3
   \<and> difficulty_multiplier (update_difficulty 1000 pm) = 1.6"
proof (intro conjI impI)
  show "difficulty_multiplier (update_difficulty sc pm)
          = 1.0 + real_of_int \<lfloor>real_of_int sc / 500\<rfloor> * 0.3"
    using floor_divide_of_int_eq[of sc 500, where ?'a = real]
    by (simp add: update_difficulty_def)
  show "difficulty_multiplier (update_difficulty sc pm)
          \<le> difficulty_multiplier (update_difficulty sc' pm)" if "sc \<le> sc'"
    using that by (simp add: update_difficulty_def zdiv_mono1)
  show "difficulty_multiplier (update_difficulty sc pm) = 1.0 + real_of_int k * 0.3"
    if "500 * k \<le> sc \<and> sc \<le> 500 * k + 499"
  proof -
    from that have "sc div 500 = k" by linarith
    then show ?thesis by (simp add: update_difficulty_def)
  qed
qed (simp_all add: update_difficulty_def)

theorem update_difficulty_step_function_witness:
  "(700::int) \<le> 1200
   \<and> difficulty_multiplier (update_difficulty 700 ProjectileManager_init)
       \<le> difficulty_multiplier (update_difficulty 1200 ProjectileManager_init)
   \<and> (500::int) * 1 \<le> 700 \<and> (700::int) \<le> 500 * 1 + 499
   \<and> difficulty_multiplier (update_difficulty 700 ProjectileManager_init) = 1.3
   \<and> difficulty_multiplier (update_difficulty 1200 ProjectileManager_init) = 1.6"
  using update_difficulty_step_function [of 700 ProjectileManager_init 1200 1]
        update_difficulty_step_function [of 1200 ProjectileManager_init 1200 2]
  by simp

section \<open>Dash\<close>



section \<open>Timed effects of the player\<close>

lemma advance_animation_frame:
  assumes "advance_animation p = Inr p1"
  shows "shield_active p1 = shield_active p" "rapid_fire_active p1 = rapid_fire_active p"
     "slow_time_active p1 = slow_time_active p" "shield_end_time p1 = shield_end_time p"
     "rapid_fire_end_time p1 = rapid_fire_end_time p"
     "slow_time_end_time p1 = slow_time_end_time p"
     "rect p1 = rect p" "n_frames p1 = n_frames p" "frozen p1 = frozen p"
     "dash_trail p1 = dash_trail p" "last_dash_time p1 = last_dash_time p"
  using assms by (auto simp: advance_animation_def split: if_splits)

lemma advance_animation_total: "0 < n_frames p \<Longrightarrow> \<exists>p1. advance_animation p = Inr p1"
  by (simp add: advance_animation_def)

lemma expire_effects_flags:
  "shield_active (expire_effects t p) = (shield_active p \<and> t \<le> shield_end_time p)"
  "rapid_fire_active (expire_effects t p) = (rapid_fire_active p \<and> t \<le> rapid_fire_end_time p)"
  "slow_time_active (expire_effects t p) = (slow_time_active p \<and> t \<le> slow_time_end_time p)"
  by (auto simp: expire_effects_def Let_def)

lemma expire_effects_frame:
  "shield_end_time (expire_effects t p) = shield_end_time p"
  "rapid_fire_end_time (expire_effects t p) = rapid_fire_end_time p"
  "slow_time_end_time (expire_effects t p) = slow_time_end_time p"
  "rect (expire_effects t p) = rect p" "n_frames (expire_effects t p) = n_frames p"
  "frozen (expire_effects t p) = frozen p" "dash_trail (expire_effects t p) = dash_trail p"
  "last_dash_time (expire_effects t p) = last_dash_time p"
  by (simp_all add: expire_effects_def Let_def)

lemma decay_dash_trail_frame:
  "shield_active (decay_dash_trail p) = shield_active p"
  "rapid_fire_active (decay_dash_trail p) = rapid_fire_active p"
  "slow_time_active (decay_dash_trail p) = slow_time_active p"
  "shield_end_time (decay_dash_trail p) = shield_end_time p"
  "rapid_fire_end_time (decay_dash_trail p) = rapid_fire_end_time p"
  "slow_time_end_time (decay_dash_trail p) = slow_time_end_time p"
  "rect (decay_dash_trail p) = rect p" "n_frames (decay_dash_trail p) = n_frames p"
  "frozen (decay_dash_trail p) = frozen p"
  "last_dash_time (decay_dash_trail p) = last_dash_time p"
  by (simp_all add: decay_dash_trail_def)

lemma Player_update_Inr:
  "Player_update t p = Inr p' \<Longrightarrow>
     \<exists>p1. advance_animation p = Inr p1 \<and> p' = decay_dash_trail (expire_effects t p1)"
  by (auto simp: Player_update_def split: sum.splits)

lemma Player_update_total: "0 < n_frames p \<Longrightarrow> \<exists>p'. Player_update t p = Inr p'"
  by (simp add: Player_update_def advance_animation_def)

lemma Player_update_n_frames: "Player_update t p = Inr p' \<Longrightarrow> n_frames p' = n_frames p"
  by (auto dest!: Player_update_Inr
           simp: advance_animation_frame expire_effects_frame decay_dash_trail_frame)

text \<open>
  C8, amended. \<open>Player_update\<close> returns a player whenever there is a frame. In the
  player it returns, each of the three effects is active exactly when it was active before
  and the clock reading is not beyond its expiry time: an effect is switched off when its
  expiry is strictly before the reading, and an effect whose expiry equals the reading
  stays active. The expiry times themselves are unchanged.
\<close>

theorem Player_update_expires_strictly_after:
  "(0 < n_frames p \<longrightarrow> (\<exists>p'. Player_update current_time p = Inr p'))
   \<and> (\<forall>p'. Player_update current_time p = Inr p' \<longrightarrow>
        (shield_active p' \<longleftrightarrow> shield_active p \<and> current_time \<le> shield_end_time p)
      \<and> (rapid_fire_active p' \<longleftrightarrow> rapid_fire_active p \<and> current_time \<le> rapid_fire_end_time p)
      \<and> (slow_time_active p' \<longleftrightarrow> slow_time_active p \<and> current_time \<le> slow_time_end_time p)
      \<and> shield_end_time p' = shield_end_time p
      \<and> rapid_fire_end_time p' = rapid_fire_end_time p
      \<and> slow_time_end_time p' = slow_time_end_time p)"
proof (intro conjI impI allI)
  assume "0 < n_frames p"
  then show "\<exists>p'. Player_update current_time p = Inr p'"
    by (rule Player_update_total)
next
  fix p' assume "Player_update current_time p = Inr p'"
  then obtain p1 where a: "advance_animation p = Inr p1"
     and p': "p' = decay_dash_trail (expire_effects current_time p1)"
    using Player_update_Inr by blast
  note f = advance_animation_frame[OF a] expire_effects_flags expire_effects_frame
           decay_dash_trail_frame
  show "shield_active p' \<longleftrightarrow> shield_active p \<and> current_time \<le> shield_end_time p"
    by (simp add: p' f)
  show "rapid_fire_active p' \<longleftrightarrow> rapid_fire_active p \<and> current_time \<le> rapid_fire_end_time p"
    by (simp add: p' f)
  show "slow_time_active p' \<longleftrightarrow> slow_time_active p \<and> current_time \<le> slow_time_end_time p"
    by (simp add: p' f)
  show "shield_end_time p' = shield_end_time p" by (simp add: p' f)
  show "rapid_fire_end_time p' = rapid_fire_end_time p" by (simp add: p' f)
  show "slow_time_end_time p' = slow_time_end_time p" by (simp add: p' f)
qed

lemma Player_update_sample_shield:
  "Player_update t (sample_player\<lparr>shield_active := True, shield_end_time := 5000\<rparr>)
     = Inr (sample_player\<lparr>frame_counter := 1, shield_active := 5000 \<ge> t,
                          shield_end_time := 5000\<rparr>)"
  by (simp add: Player_update_def advance_animation_def expire_effects_def decay_dash_trail_def
        sample_player_def)

theorem Player_update_expires_strictly_after_witness:
  "0 < n_frames (sample_player\<lparr>shield_active := True, shield_end_time := 5000\<rparr>)
   \<and> Player_update 5001 (sample_player\<lparr>shield_active := True, shield_end_time := 5000\<rparr>)
       = Inr (sample_player\<lparr>frame_counter := 1, shield_active := False, shield_end_time := 5000\<rparr>)
   \<and> \<not> shield_active
          (sample_player\<lparr>frame_counter := 1, shield_active := False, shield_end_time := 5000\<rparr>)
   \<and> \<not> (5001 \<le> shield_end_time (sample_player\<lparr>shield_active := True, shield_end_time := 5000\<rparr>))"
  using Player_update_expires_strictly_after
          [of "sample_player\<lparr>shield_active := True, shield_end_time := 5000\<rparr>" 5001]
        Player_update_sample_shield [of 5001]
  by (simp add: sample_player_def)

text \<open>
  C8 as stated fails: the shield of this player expires at 5000, the clock reads 5000,
  and the update leaves the shield active.
\<close>

theorem Player_update_expiry_equal_now_counterexample:
  "shield_end_time (sample_player\<lparr>shield_active := True, shield_end_time := 5000\<rparr>) \<le> 5000
   \<and> Player_update 5000 (sample_player\<lparr>shield_active := True, shield_end_time := 5000\<rparr>)
       = Inr (sample_player\<lparr>frame_counter := 1, shield_active := True, shield_end_time := 5000\<rparr>)
   \<and> shield_active
        (sample_player\<lparr>frame_counter := 1, shield_active := True, shield_end_time := 5000\<rparr>)"
  using Player_update_sample_shield [of 5000] by simp

section \<open>Fire delay\<close>

lemma spawn_projectiles_total:
  "snd PROJECTILE_SIZE \<le> H \<Longrightarrow> \<exists>ps' s'. spawn_projectiles n H dm ps s = Inr (ps', s')"
  by (induction n arbitrary: ps s) (simp_all add: random_randint_def random_uniform_def)

lemma ProjectileManager_update_total:
  assumes "snd PROJECTILE_SIZE \<le> H" "difficulty_multiplier pm \<noteq> 0"
  shows "\<exists>pm' s'. ProjectileManager_update pl W H s pm = Inr (pm', s')"
proof -
  obtain ps' s' where "spawn_projectiles (if difficulty_multiplier pm < 2 then 1 else 2)
                            H (difficulty_multiplier pm) (projectiles pm) s = Inr (ps', s')"
    using spawn_projectiles_total[OF assms(1)] by blast
  then show ?thesis using assms(2)
    by (simp add: ProjectileManager_update_def Let_def)
qed





section \<open>The particle system never raises\<close>

lemma Particle_init_total: "\<exists>pt s'. Particle_init x y c v lt s = Inr (pt, s')"
  by (simp add: Particle_init_def random_randint_Inr)

lemma add_explosion_loop_total: "\<exists>ps' s'. add_explosion_loop n x y c ps s = Inr (ps', s')"
proof (induction n arbitrary: ps s)
  case 0
  show ?case by simp
next
  case (Suc n)
  obtain pt s4 where
    "Particle_init x y c (- 3 + (3 - - 3) * shd s, - 5 + (- 1 - - 5) * shd (stl s))
       (20 + \<lfloor>shd (stl (stl s)) * real_of_int (40 - 20 + 1)\<rfloor>) (stl (stl (stl s)))
     = Inr (pt, s4)"
    using Particle_init_total by blast
  then show ?case using Suc.IH
    by (simp add: random_uniform_def random_randint_Inr)
qed

lemma add_explosion_total: "\<exists>ps' s'. add_explosion x y c ps s = Inr (ps', s')"
  by (simp add: add_explosion_def add_explosion_loop_total)

lemma add_trail_total: "\<exists>ps' s'. add_trail x y ps s = Inr (ps', s')"
proof -
  obtain pt s4 where
    "Particle_init x y CYAN (- 1 + (1 - - 1) * shd s, - 1 + (1 - - 1) * shd (stl s))
       (10 + \<lfloor>shd (stl (stl s)) * real_of_int (20 - 10 + 1)\<rfloor>) (stl (stl (stl s)))
     = Inr (pt, s4)"
    using Particle_init_total by blast
  then show ?thesis
    by (simp add: add_trail_def random_uniform_def random_randint_Inr)
qed

section \<open>What each block of update_game leaves unchanged\<close>

lemma seq_steps_Cons_Inr:
  "seq_steps (f # fs) g = Inr g' \<longleftrightarrow> (\<exists>g1. f g = Inr g1 \<and> seq_steps fs g1 = Inr g')"
  by (cases "f g") simp_all

lemma handle_player_input_frame:
  assumes "handle_player_input ks g = Inr g'"
  shows "state g' = state g" "lives g' = lives g" "score g' = score g"
    "cutscene_triggered g' = cutscene_triggered g" "call_log g' = call_log g"
    "SCREEN_WIDTH g' = SCREEN_WIDTH g" "SCREEN_HEIGHT g' = SCREEN_HEIGHT g"
    "n_frames (player g') = n_frames (player g)"
  using assms by (auto simp: handle_player_input_def Player_move_def Let_def)

lemma Player_dash_n_frames: "n_frames (snd (Player_dash t ks W H p)) = n_frames p"
  by (simp add: Player_dash_def Let_def)

lemma handle_dash_frame:
  assumes "handle_dash ks g = Inr g'"
  shows "state g' = state g" "lives g' = lives g" "score g' = score g"
    "cutscene_triggered g' = cutscene_triggered g" "call_log g' = call_log g"
    "SCREEN_WIDTH g' = SCREEN_WIDTH g" "SCREEN_HEIGHT g' = SCREEN_HEIGHT g"
    "n_frames (player g') = n_frames (player g)"
proof -
  obtain dashed pl where
    d: "Player_dash (shd (clock g)) ks (SCREEN_WIDTH g) (SCREEN_HEIGHT g) (player g) = (dashed, pl)"
    by (cases "Player_dash (shd (clock g)) ks (SCREEN_WIDTH g) (SCREEN_HEIGHT g) (player g)")
  have n: "n_frames pl = n_frames (player g)"
    using Player_dash_n_frames[of "shd (clock g)" ks "SCREEN_WIDTH g" "SCREEN_HEIGHT g" "player g"] d
    by simp
  from assms d
  have "(\<exists>ps s. g' = g\<lparr>player := pl, clock := stl (clock g), particle_system := ps, rng := s\<rparr>)
        \<or> g' = g\<lparr>player := pl, clock := stl (clock g)\<rparr>"
    by (cases dashed) (auto simp: handle_dash_def split: sum.splits)
  then show "state g' = state g" "lives g' = lives g" "score g' = score g"
    "cutscene_triggered g' = cutscene_triggered g" "call_log g' = call_log g"
    "SCREEN_WIDTH g' = SCREEN_WIDTH g" "SCREEN_HEIGHT g' = SCREEN_HEIGHT g"
    "n_frames (player g') = n_frames (player g)"
    using n by auto
qed

lemma handle_dash_total: "\<exists>g'. handle_dash ks g = Inr g'"
proof -
  obtain dashed pl where
    d: "Player_dash (shd (clock g)) ks (SCREEN_WIDTH g) (SCREEN_HEIGHT g) (player g) = (dashed, pl)"
    by (cases "Player_dash (shd (clock g)) ks (SCREEN_WIDTH g) (SCREEN_HEIGHT g) (player g)")
  obtain ps s where
    "add_trail (real_of_int (centerx (rect pl))) (real_of_int (centery (rect pl)))
       (particle_system g) (rng g) = Inr (ps, s)"
    using add_trail_total by blast
  with d show ?thesis by (simp add: handle_dash_def)
qed

lemma update_player_frame:
  assumes "update_player g = Inr g'"
  shows "state g' = state g" "lives g' = lives g" "score g' = score g"
    "cutscene_triggered g' = cutscene_triggered g" "call_log g' = call_log g"
    "SCREEN_WIDTH g' = SCREEN_WIDTH g" "SCREEN_HEIGHT g' = SCREEN_HEIGHT g"
    "n_frames (player g') = n_frames (player g)"
  using assms by (auto simp: update_player_def dest: Player_update_n_frames split: sum.splits)

lemma update_player_total: "0 < n_frames (player g) \<Longrightarrow> \<exists>g'. update_player g = Inr g'"
  using Player_update_total[of "player g" "shd (clock g)"] by (auto simp: update_player_def)

lemma update_game_difficulty_frame:
  assumes "update_game_difficulty g = Inr g'"
  shows "state g' = state g" "lives g' = lives g" "score g' = score g"
    "cutscene_triggered g' = cutscene_triggered g" "call_log g' = call_log g"
    "SCREEN_WIDTH g' = SCREEN_WIDTH g" "SCREEN_HEIGHT g' = SCREEN_HEIGHT g"
    "n_frames (player g') = n_frames (player g)"
    "difficulty_multiplier (projectile_manager g') \<noteq> 0"
proof -
  from assms
  have g': "g' = g\<lparr>projectile_manager := update_difficulty (score g) (projectile_manager g)\<rparr>"
    by (simp add: update_game_difficulty_def)
  show "state g' = state g" "lives g' = lives g" "score g' = score g"
    "cutscene_triggered g' = cutscene_triggered g" "call_log g' = call_log g"
    "SCREEN_WIDTH g' = SCREEN_WIDTH g" "SCREEN_HEIGHT g' = SCREEN_HEIGHT g"
    "n_frames (player g') = n_frames (player g)"
    by (simp_all add: g')
  show "difficulty_multiplier (projectile_manager g') \<noteq> 0"
    using difficulty_nonzero[of "score g div 500"] by (simp add: g' update_difficulty_def)
qed

lemma update_projectiles_frame:
  assumes "update_projectiles g = Inr g'"
  shows "state g' = state g" "lives g' = lives g" "score g' = score g"
    "cutscene_triggered g' = cutscene_triggered g" "call_log g' = call_log g"
    "SCREEN_WIDTH g' = SCREEN_WIDTH g" "SCREEN_HEIGHT g' = SCREEN_HEIGHT g"
    "n_frames (player g') = n_frames (player g)"
proof -
  from assms obtain pm s where "g' = g\<lparr>projectile_manager := pm, rng := s\<rparr>"
    by (cases "ProjectileManager_update (player g) (SCREEN_WIDTH g) (SCREEN_HEIGHT g) (rng g)
                 (projectile_manager g)")
       (auto simp: update_projectiles_def)
  then show "state g' = state g" "lives g' = lives g" "score g' = score g"
    "cutscene_triggered g' = cutscene_triggered g" "call_log g' = call_log g"
    "SCREEN_WIDTH g' = SCREEN_WIDTH g" "SCREEN_HEIGHT g' = SCREEN_HEIGHT g"
    "n_frames (player g') = n_frames (player g)"
    by simp_all
qed

lemma update_projectiles_total:
  assumes "10 \<le> SCREEN_HEIGHT g" "difficulty_multiplier (projectile_manager g) \<noteq> 0"
  shows "\<exists>g'. update_projectiles g = Inr g'"
proof -
  have "snd PROJECTILE_SIZE \<le> SCREEN_HEIGHT g" using assms(1) by simp
  from ProjectileManager_update_total[OF this assms(2)]
  obtain pm' s' where
    "ProjectileManager_update (player g) (SCREEN_WIDTH g) (SCREEN_HEIGHT g) (rng g)
       (projectile_manager g) = Inr (pm', s')"
    by blast
  then show ?thesis by (simp add: update_projectiles_def)
qed

lemma update_particles_frame:
  assumes "update_particles g = Inr g'"
  shows "state g' = state g" "lives g' = lives g" "score g' = score g"
    "cutscene_triggered g' = cutscene_triggered g" "call_log g' = call_log g"
    "SCREEN_WIDTH g' = SCREEN_WIDTH g" "SCREEN_HEIGHT g' = SCREEN_HEIGHT g"
    "n_frames (player g') = n_frames (player g)"
  using assms by (auto simp: update_particles_def)

lemma update_powerups_frame:
  assumes "update_powerups g = Inr g'"
  shows "state g' = state g" "lives g' = lives g" "score g' = score g"
    "cutscene_triggered g' = cutscene_triggered g" "call_log g' = call_log g"
    "SCREEN_WIDTH g' = SCREEN_WIDTH g" "SCREEN_HEIGHT g' = SCREEN_HEIGHT g"
    "n_frames (player g') = n_frames (player g)"
  using assms by (auto simp: update_powerups_def split: prod.splits)

lemma update_powerups_total: "\<exists>g'. update_powerups g = Inr g'"
  by (simp add: update_powerups_def split: prod.splits)

lemma spawn_powerups_cases:
  assumes "spawn_powerups g = Inr g'"
  shows "(\<exists>pus s c. g' = g\<lparr>powerups := pus, rng := s, clock := c\<rparr>) \<or> (\<exists>s. g' = g\<lparr>rng := s\<rparr>)"
proof (cases "shd (rng g) < POWERUP_SPAWN_CHANCE")
  case False
  with assms have "g' = g\<lparr>rng := stl (rng g)\<rparr>"
    by (auto simp: spawn_powerups_def random_random_def)
  then show ?thesis by blast
next
  case True
  from assms True obtain x s2 where
    x: "random_randint 50 (SCREEN_WIDTH g - 50) (stl (rng g)) = Inr (x, s2)"
    by (cases "random_randint 50 (SCREEN_WIDTH g - 50) (stl (rng g))")
       (auto simp: spawn_powerups_def random_random_def)
  from assms True x obtain y s3 where
    y: "random_randint 50 (SCREEN_HEIGHT g - 50) s2 = Inr (y, s3)"
    by (cases "random_randint 50 (SCREEN_HEIGHT g - 50) s2")
       (auto simp: spawn_powerups_def random_random_def)
  obtain pu s4 where pu: "PowerUp_init x y (shd (clock g)) s3 = (pu, s4)"
    by (cases "PowerUp_init x y (shd (clock g)) s3")
  from assms True x y pu
  have "g' = g\<lparr>powerups := powerups g @ [pu], rng := s4, clock := stl (clock g)\<rparr>"
    by (simp add: spawn_powerups_def random_random_def)
  then show ?thesis by blast
qed

lemma spawn_powerups_frame:
  assumes "spawn_powerups g = Inr g'"
  shows "state g' = state g" "lives g' = lives g" "score g' = score g"
    "cutscene_triggered g' = cutscene_triggered g" "call_log g' = call_log g"
    "SCREEN_WIDTH g' = SCREEN_WIDTH g" "SCREEN_HEIGHT g' = SCREEN_HEIGHT g"
    "n_frames (player g') = n_frames (player g)"
  using spawn_powerups_cases[OF assms] by auto

lemma spawn_powerups_total:
  assumes "100 \<le> SCREEN_WIDTH g" "100 \<le> SCREEN_HEIGHT g"
  shows "\<exists>g'. spawn_powerups g = Inr g'"
proof -
  have "50 \<le> SCREEN_WIDTH g - 50" "50 \<le> SCREEN_HEIGHT g - 50" using assms by simp_all
  then show ?thesis
    by (simp add: spawn_powerups_def random_random_def random_randint_Inr split: prod.splits)
qed

lemma Player_activate_powerup_n_frames:
  "n_frames (Player_activate_powerup t ty p) = n_frames p"
  by (simp add: Player_activate_powerup_def)

lemma collect_powerups_loop_frame:
  "collect_powerups_loop pus g = Inr g' \<Longrightarrow>
     state g' = state g \<and> lives g \<le> lives g' \<and> score g' = score g
     \<and> cutscene_triggered g' = cutscene_triggered g \<and> call_log g' = call_log g
     \<and> SCREEN_WIDTH g' = SCREEN_WIDTH g \<and> SCREEN_HEIGHT g' = SCREEN_HEIGHT g
     \<and> n_frames (player g') = n_frames (player g)"
proof (induction pus arbitrary: g)
  case Nil
  then show ?case by simp
next
  case (Cons pu pus)
  show ?case
  proof (cases "colliderect (pu_rect pu) (rect (player g))")
    case False
    with Cons.prems have "collect_powerups_loop pus g = Inr g'" by simp
    then show ?thesis by (rule Cons.IH)
  next
    case True
    define g1 where
      "g1 = (if pu_type pu = MULTI_LIFE then g\<lparr>lives := lives g + 1\<rparr>
             else g\<lparr>player := Player_activate_powerup (shd (clock g)) (pu_type pu) (player g),
                    clock := stl (clock g)\<rparr>)"
    obtain ps s where
      e: "add_explosion (real_of_int (centerx (pu_rect pu))) (real_of_int (centery (pu_rect pu)))
            (powerup_color (pu_type pu)) (particle_system g1) (rng g1) = Inr (ps, s)"
      using add_explosion_total by blast
    from Cons.prems True e
    have "collect_powerups_loop pus
            (g1\<lparr>particle_system := ps, rng := s, powerups := remove1 pu (powerups g1)\<rparr>) = Inr g'"
      by (simp add: g1_def Let_def)
    from Cons.IH[OF this]
    have ih: "state g' = state g1 \<and> lives g1 \<le> lives g' \<and> score g' = score g1
      \<and> cutscene_triggered g' = cutscene_triggered g1 \<and> call_log g' = call_log g1
      \<and> SCREEN_WIDTH g' = SCREEN_WIDTH g1 \<and> SCREEN_HEIGHT g' = SCREEN_HEIGHT g1
      \<and> n_frames (player g') = n_frames (player g1)"
      by simp
    have "state g1 = state g \<and> lives g \<le> lives g1 \<and> score g1 = score g
      \<and> cutscene_triggered g1 = cutscene_triggered g \<and> call_log g1 = call_log g
      \<and> SCREEN_WIDTH g1 = SCREEN_WIDTH g \<and> SCREEN_HEIGHT g1 = SCREEN_HEIGHT g
      \<and> n_frames (player g1) = n_frames (player g)"
      by (simp add: g1_def Player_activate_powerup_n_frames)
    with ih show ?thesis by simp
  qed
qed

lemma collect_powerups_loop_total: "\<exists>g'. collect_powerups_loop pus g = Inr g'"
proof (induction pus arbitrary: g)
  case Nil
  show ?case by simp
next
  case (Cons pu pus)
  show ?case
  proof (cases "colliderect (pu_rect pu) (rect (player g))")
    case False
    then show ?thesis using Cons.IH by simp
  next
    case True
    define g1 where
      "g1 = (if pu_type pu = MULTI_LIFE then g\<lparr>lives := lives g + 1\<rparr>
             else g\<lparr>player := Player_activate_powerup (shd (clock g)) (pu_type pu) (player g),
                    clock := stl (clock g)\<rparr>)"
    obtain ps s where
      e: "add_explosion (real_of_int (centerx (pu_rect pu))) (real_of_int (centery (pu_rect pu)))
            (powerup_color (pu_type pu)) (particle_system g1) (rng g1) = Inr (ps, s)"
      using add_explosion_total by blast
    from Cons.IH[of "g1\<lparr>particle_system := ps, rng := s, powerups := remove1 pu (powerups g1)\<rparr>"]
         True e
    show ?thesis by (simp add: g1_def Let_def)
  qed
qed

lemma collect_powerups_frame:
  assumes "collect_powerups g = Inr g'"
  shows "state g' = state g" "lives g \<le> lives g'" "score g' = score g"
    "cutscene_triggered g' = cutscene_triggered g" "call_log g' = call_log g"
    "SCREEN_WIDTH g' = SCREEN_WIDTH g" "SCREEN_HEIGHT g' = SCREEN_HEIGHT g"
    "n_frames (player g') = n_frames (player g)"
  using collect_powerups_loop_frame[of "powerups g" g g'] assms
  by (simp_all add: collect_powerups_def)

lemma collect_powerups_total: "\<exists>g'. collect_powerups g = Inr g'"
  by (simp add: collect_powerups_def collect_powerups_loop_total)

lemma check_collisions_cases:
  assumes "check_collisions g = Inr g'"
  shows "(\<exists>pm. g' = g\<lparr>projectile_manager := pm\<rparr>)
       \<or> (\<exists>pm ps s. 0 < lives g - 1
             \<and> g' = g\<lparr>projectile_manager := pm, lives := lives g - 1,
                       call_log := call_log g @ [Hit_sound_play], screen_shake := 10,
                       particle_system := ps, rng := s\<rparr>)
       \<or> (\<exists>pm ps s. lives g - 1 \<le> 0
             \<and> g' = g\<lparr>projectile_manager := pm, lives := lives g - 1,
                       call_log := call_log g @ [Hit_sound_play], screen_shake := 10,
                       particle_system := ps, rng := s, state := GAME_OVER,
                       call_log := call_log g @ [Hit_sound_play]
                                   @ [Music_stop, Game_over_sound_play]\<rparr>)"
proof -
  obtain hit pm where
    c: "check_collision (rect (player g)) (player g) (projectile_manager g) = (hit, pm)"
    by (cases "check_collision (rect (player g)) (player g) (projectile_manager g)")
  show ?thesis
  proof (cases "hit \<and> \<not> shield_active (player g)")
    case False
    with assms c have "g' = g\<lparr>projectile_manager := pm\<rparr>"
      by (cases hit) (auto simp: check_collisions_def Let_def)
    then show ?thesis by blast
  next
    case True
    obtain ps s where
      e: "add_explosion (real_of_int (centerx (rect (player g))))
            (real_of_int (centery (rect (player g)))) RED (particle_system g) (rng g)
          = Inr (ps, s)"
      using add_explosion_total by blast
    show ?thesis
    proof (cases "lives g - 1 \<le> 0")
      case le: True
      with assms c True e
      have "g' = g\<lparr>projectile_manager := pm, lives := lives g - 1,
                       call_log := call_log g @ [Hit_sound_play], screen_shake := 10,
                       particle_system := ps, rng := s, state := GAME_OVER,
                       call_log := call_log g @ [Hit_sound_play]
                                   @ [Music_stop, Game_over_sound_play]\<rparr>"
        by (simp add: check_collisions_def Let_def)
      with le show ?thesis by blast
    next
      case gt: False
      with assms c True e
      have "g' = g\<lparr>projectile_manager := pm, lives := lives g - 1,
                       call_log := call_log g @ [Hit_sound_play], screen_shake := 10,
                       particle_system := ps, rng := s\<rparr>"
        by (simp add: check_collisions_def Let_def)
      with gt show ?thesis by auto
    qed
  qed
qed

lemma check_collisions_frame:
  assumes "check_collisions g = Inr g'"
  shows "score g' = score g" "cutscene_triggered g' = cutscene_triggered g"
    "SCREEN_WIDTH g' = SCREEN_WIDTH g" "SCREEN_HEIGHT g' = SCREEN_HEIGHT g"
    "n_frames (player g') = n_frames (player g)"
  using check_collisions_cases[OF assms] by auto

lemma check_collisions_effect:
  assumes "check_collisions g = Inr g'"
  shows "(lives g' = lives g \<and> state g' = state g \<and> call_log g' = call_log g)
       \<or> (lives g' = lives g - 1 \<and> 0 < lives g' \<and> state g' = state g
           \<and> call_log g' = call_log g @ [Hit_sound_play])
       \<or> (lives g' = lives g - 1 \<and> lives g' \<le> 0 \<and> state g' = GAME_OVER
           \<and> call_log g' = call_log g @ [Hit_sound_play, Music_stop, Game_over_sound_play])"
  using check_collisions_cases[OF assms] by auto

lemma check_collisions_total: "\<exists>g'. check_collisions g = Inr g'"
proof -
  obtain hit pm where
    c: "check_collision (rect (player g)) (player g) (projectile_manager g) = (hit, pm)"
    by (cases "check_collision (rect (player g)) (player g) (projectile_manager g)")
  obtain ps s where
    e: "add_explosion (real_of_int (centerx (rect (player g))))
          (real_of_int (centery (rect (player g)))) RED (particle_system g) (rng g)
        = Inr (ps, s)"
    using add_explosion_total by blast
  from c e show ?thesis by (simp add: check_collisions_def Let_def)
qed

lemma update_screen_shake_cases:
  assumes "update_screen_shake g = Inr g'"
  shows "(\<exists>sh off s. g' = g\<lparr>screen_shake := sh, shake_offset := off, rng := s\<rparr>)
       \<or> g' = g\<lparr>shake_offset := (0, 0)\<rparr>"
proof (cases "screen_shake g > 0")
  case False
  with assms show ?thesis by (simp add: update_screen_shake_def)
next
  case True
  then have "- (screen_shake g - 1) \<le> screen_shake g - 1" by simp
  with assms True show ?thesis
    by (auto simp: update_screen_shake_def Let_def random_randint_Inr)
qed

lemma update_screen_shake_frame:
  assumes "update_screen_shake g = Inr g'"
  shows "state g' = state g" "lives g' = lives g" "score g' = score g"
    "cutscene_triggered g' = cutscene_triggered g" "call_log g' = call_log g"
    "SCREEN_WIDTH g' = SCREEN_WIDTH g" "SCREEN_HEIGHT g' = SCREEN_HEIGHT g"
    "n_frames (player g') = n_frames (player g)"
  using update_screen_shake_cases[OF assms] by auto

lemma update_screen_shake_total: "\<exists>g'. update_screen_shake g = Inr g'"
proof (cases "screen_shake g > 0")
  case False
  then show ?thesis by (simp add: update_screen_shake_def)
next
  case True
  then have "- (screen_shake g - 1) \<le> screen_shake g - 1" by simp
  with True show ?thesis
    by (simp add: update_screen_shake_def Let_def random_randint_Inr)
qed

lemma update_score_frame:
  assumes "update_score g = Inr g'"
  shows "state g' = state g" "lives g' = lives g" "score g' = score g + 1"
    "cutscene_triggered g' = cutscene_triggered g" "call_log g' = call_log g"
    "SCREEN_WIDTH g' = SCREEN_WIDTH g" "SCREEN_HEIGHT g' = SCREEN_HEIGHT g"
    "n_frames (player g') = n_frames (player g)"
  using assms by (auto simp: update_score_def)

section \<open>One update of the game\<close>

text \<open>The update that runs the twelve blocks: the flag is set or the score is below
  the trigger.\<close>

lemma update_game_blocks:
  assumes "state g = PLAYING"
      and "cutscene_triggered g \<or> score g < CUTSCENE_TRIGGER_SCORE"
      and "update_game ks g = Inr g'"
  obtains g9 g10 where
    "seq_steps [handle_player_input ks, handle_dash ks, update_player,
                update_game_difficulty, update_projectiles, update_particles,
                update_powerups, spawn_powerups, collect_powerups] g = Inr g9"
    "state g9 = PLAYING" "lives g \<le> lives g9" "score g9 = score g"
    "cutscene_triggered g9 = cutscene_triggered g" "call_log g9 = call_log g"
    "SCREEN_WIDTH g9 = SCREEN_WIDTH g" "SCREEN_HEIGHT g9 = SCREEN_HEIGHT g"
    "n_frames (player g9) = n_frames (player g)"
    "check_collisions g9 = Inr g10"
    "state g' = state g10" "lives g' = lives g10" "score g' = score g10 + 1"
    "cutscene_triggered g' = cutscene_triggered g10" "call_log g' = call_log g10"
    "SCREEN_WIDTH g' = SCREEN_WIDTH g10" "SCREEN_HEIGHT g' = SCREEN_HEIGHT g10"
    "n_frames (player g') = n_frames (player g10)"
proof -
  from assms have
    "seq_steps [handle_player_input ks, handle_dash ks, update_player,
                update_game_difficulty, update_projectiles, update_particles,
                update_powerups, spawn_powerups, collect_powerups, check_collisions,
                update_screen_shake, update_score] g = Inr g'"
    by (auto simp: update_game_def)
  then obtain g1 g2 g3 g4 g5 g6 g7 g8 g9 g10 g11 where
    s: "handle_player_input ks g = Inr g1" "handle_dash ks g1 = Inr g2"
       "update_player g2 = Inr g3" "update_game_difficulty g3 = Inr g4"
       "update_projectiles g4 = Inr g5" "update_particles g5 = Inr g6"
       "update_powerups g6 = Inr g7" "spawn_powerups g7 = Inr g8"
       "collect_powerups g8 = Inr g9" "check_collisions g9 = Inr g10"
       "update_screen_shake g10 = Inr g11" "update_score g11 = Inr g'"
    unfolding seq_steps_Cons_Inr seq_steps.simps(1) by blast
  note f = handle_player_input_frame[OF s(1)] handle_dash_frame[OF s(2)]
     update_player_frame[OF s(3)] update_game_difficulty_frame(1-8)[OF s(4)]
     update_projectiles_frame[OF s(5)] update_particles_frame[OF s(6)]
     update_powerups_frame[OF s(7)] spawn_powerups_frame[OF s(8)]
     collect_powerups_frame[OF s(9)]
  note f' = update_screen_shake_frame[OF s(11)] update_score_frame[OF s(12)]
  show thesis
  proof (rule that[of g9 g10])
    show "seq_steps [handle_player_input ks, handle_dash ks, update_player,
                update_game_difficulty, update_projectiles, update_particles,
                update_powerups, spawn_powerups, collect_powerups] g = Inr g9"
      by (simp add: s)
    show "state g9 = PLAYING" using assms(1) by (simp add: f)
    show "lives g \<le> lives g9" using collect_powerups_frame(2)[OF s(9)] by (simp add: f)
    show "score g9 = score g" by (simp add: f)
    show "cutscene_triggered g9 = cutscene_triggered g" by (simp add: f)
    show "call_log g9 = call_log g" by (simp add: f)
    show "SCREEN_WIDTH g9 = SCREEN_WIDTH g" by (simp add: f)
    show "SCREEN_HEIGHT g9 = SCREEN_HEIGHT g" by (simp add: f)
    show "n_frames (player g9) = n_frames (player g)" by (simp add: f)
    show "check_collisions g9 = Inr g10" by (rule s(10))
    show "state g' = state g10" by (simp add: f')
    show "lives g' = lives g10" by (simp add: f')
    show "score g' = score g10 + 1" by (simp add: f')
    show "cutscene_triggered g' = cutscene_triggered g10" by (simp add: f')
    show "call_log g' = call_log g10" by (simp add: f')
    show "SCREEN_WIDTH g' = SCREEN_WIDTH g10" by (simp add: f')
    show "SCREEN_HEIGHT g' = SCREEN_HEIGHT g10" by (simp add: f')
    show "n_frames (player g') = n_frames (player g10)" by (simp add: f')
  qed
qed

lemma update_game_total:
  assumes "0 < n_frames (player g)" "100 \<le> SCREEN_WIDTH g" "100 \<le> SCREEN_HEIGHT g"
  shows "\<exists>g'. update_game ks g = Inr g'"
proof -
  obtain g1 where s1: "handle_player_input ks g = Inr g1"
    by (simp add: handle_player_input_def)
  obtain g2 where s2: "handle_dash ks g1 = Inr g2"
    using handle_dash_total by blast
  note f2 = handle_player_input_frame[OF s1] handle_dash_frame[OF s2]
  have "0 < n_frames (player g2)" using assms(1) by (simp add: f2)
  then obtain g3 where s3: "update_player g2 = Inr g3"
    using update_player_total by blast
  obtain g4 where s4: "update_game_difficulty g3 = Inr g4"
    by (simp add: update_game_difficulty_def)
  note f4 = f2 update_player_frame[OF s3] update_game_difficulty_frame(1-8)[OF s4]
  have "10 \<le> SCREEN_HEIGHT g4" using assms(3) by (simp add: f4)
  then obtain g5 where s5: "update_projectiles g4 = Inr g5"
    using update_projectiles_total update_game_difficulty_frame(9)[OF s4] by blast
  obtain g6 where s6: "update_particles g5 = Inr g6"
    by (simp add: update_particles_def)
  obtain g7 where s7: "update_powerups g6 = Inr g7"
    using update_powerups_total by blast
  note f7 = f4 update_projectiles_frame[OF s5] update_particles_frame[OF s6]
            update_powerups_frame[OF s7]
  have "100 \<le> SCREEN_WIDTH g7" "100 \<le> SCREEN_HEIGHT g7"
    using assms(2,3) by (simp_all add: f7)
  then obtain g8 where s8: "spawn_powerups g7 = Inr g8"
    using spawn_powerups_total by blast
  obtain g9 where s9: "collect_powerups g8 = Inr g9"
    using collect_powerups_total by blast
  obtain g10 where s10: "check_collisions g9 = Inr g10"
    using check_collisions_total by blast
  obtain g11 where s11: "update_screen_shake g10 = Inr g11"
    using update_screen_shake_total by blast
  obtain g12 where s12: "update_score g11 = Inr g12"
    by (simp add: update_score_def)
  have "seq_steps [handle_player_input ks, handle_dash ks, update_player,
                update_game_difficulty, update_projectiles, update_particles,
                update_powerups, spawn_powerups, collect_powerups, check_collisions,
                update_screen_shake, update_score] g = Inr g12"
    by (simp add: s1 s2 s3 s4 s5 s6 s7 s8 s9 s10 s11 s12)
  then show ?thesis by (simp add: update_game_def)
qed

lemma update_game_trigger:
  assumes "state g = PLAYING" "\<not> cutscene_triggered g" "CUTSCENE_TRIGGER_SCORE \<le> score g"
  shows "update_game ks g = Inr (trigger_cutscene g)"
  using assms by (simp add: update_game_def)

lemma trigger_cutscene_fields:
  "state (trigger_cutscene g) = CUTSCENE" "cutscene_triggered (trigger_cutscene g)"
  "frozen (player (trigger_cutscene g))" "\<not> pm_active (projectile_manager (trigger_cutscene g))"
  "cs_active (cutscene (trigger_cutscene g))" "stage (cutscene (trigger_cutscene g)) = 0"
  "call_log (trigger_cutscene g) = call_log g @ [Cutscene_start_call]"
  "score (trigger_cutscene g) = score g" "lives (trigger_cutscene g) = lives g"
  by (simp_all add: trigger_cutscene_def Player_freeze_def set_active_def Cutscene_start_def)

lemma update_game_normal:
  assumes "state g = PLAYING"
      and "cutscene_triggered g \<or> score g < CUTSCENE_TRIGGER_SCORE"
      and "update_game ks g = Inr g'"
  shows "score g' = score g + 1" "cutscene_triggered g' = cutscene_triggered g"
    "\<exists>L. lives g \<le> L \<and>
       ((lives g' = L \<and> state g' = PLAYING \<and> call_log g' = call_log g)
        \<or> (lives g' = L - 1 \<and> 0 < lives g' \<and> state g' = PLAYING
            \<and> call_log g' = call_log g @ [Hit_sound_play])
        \<or> (lives g' = L - 1 \<and> lives g' \<le> 0 \<and> state g' = GAME_OVER
            \<and> call_log g' = call_log g @ [Hit_sound_play, Music_stop, Game_over_sound_play]))"
proof -
  from update_game_blocks[OF assms] obtain g9 g10 where
    b: "state g9 = PLAYING" "lives g \<le> lives g9" "score g9 = score g"
       "cutscene_triggered g9 = cutscene_triggered g" "call_log g9 = call_log g"
       "check_collisions g9 = Inr g10"
       "state g' = state g10" "lives g' = lives g10" "score g' = score g10 + 1"
       "cutscene_triggered g' = cutscene_triggered g10" "call_log g' = call_log g10"
    by metis
  note c = check_collisions_frame[OF b(6)]
  show "score g' = score g + 1" by (simp add: b c)
  show "cutscene_triggered g' = cutscene_triggered g" by (simp add: b c)
  from check_collisions_effect[OF b(6)]
  have "(lives g' = lives g9 \<and> state g' = PLAYING \<and> call_log g' = call_log g)
        \<or> (lives g' = lives g9 - 1 \<and> 0 < lives g' \<and> state g' = PLAYING
            \<and> call_log g' = call_log g @ [Hit_sound_play])
        \<or> (lives g' = lives g9 - 1 \<and> lives g' \<le> 0 \<and> state g' = GAME_OVER
            \<and> call_log g' = call_log g @ [Hit_sound_play, Music_stop, Game_over_sound_play])"
    by (simp add: b)
  with b(2) show "\<exists>L. lives g \<le> L \<and>
       ((lives g' = L \<and> state g' = PLAYING \<and> call_log g' = call_log g)
        \<or> (lives g' = L - 1 \<and> 0 < lives g' \<and> state g' = PLAYING
            \<and> call_log g' = call_log g @ [Hit_sound_play])
        \<or> (lives g' = L - 1 \<and> lives g' \<le> 0 \<and> state g' = GAME_OVER
            \<and> call_log g' = call_log g @ [Hit_sound_play, Music_stop, Game_over_sound_play]))"
    by blast
qed

section \<open>The session\<close>

lemma calls_since_start_append:
  assumes "Start_game_call \<notin> set xs"
  shows "calls_since_start (cl @ xs) = calls_since_start cl @ xs"
proof -
  have "takeWhile (\<lambda>c. c \<noteq> Start_game_call) (rev xs @ rev cl)
          = rev xs @ takeWhile (\<lambda>c. c \<noteq> Start_game_call) (rev cl)"
    by (rule takeWhile_append2) (use assms in auto)
  then show ?thesis by (simp add: calls_since_start_def)
qed

lemma calls_since_start_restart:
  assumes "Start_game_call \<notin> set xs"
  shows "calls_since_start (cl @ Start_game_call # xs) = xs"
proof -
  have "takeWhile (\<lambda>c. c \<noteq> Start_game_call) (rev xs @ Start_game_call # rev cl)
          = rev xs @ takeWhile (\<lambda>c. c \<noteq> Start_game_call) (Start_game_call # rev cl)"
    by (rule takeWhile_append2) (use assms in auto)
  then show ?thesis by (simp add: calls_since_start_def)
qed

lemma Game_init_inv: "Game_init am c s m = Inr g \<Longrightarrow> session_inv g"
  by (auto simp: Game_init_def session_inv_def calls_since_start_def split: sum.splits)

lemma start_game_fields:
  "state (start_game g) = PLAYING" "lives (start_game g) = INITIAL_LIVES"
  "score (start_game g) = 0" "\<not> cutscene_triggered (start_game g)"
  "projectiles (projectile_manager (start_game g)) = []"
  "pm_active (projectile_manager (start_game g))"
  "powerups (start_game g) = []" "particles (particle_system (start_game g)) = []"
  "calls_since_start (call_log (start_game g))
     = (if shd (mixer g) then [Music_load, Music_play] else [Music_load])"
  using calls_since_start_restart[of "[Music_load, Music_play]" "call_log g"]
        calls_since_start_restart[of "[Music_load]" "call_log g"]
  by (simp_all add: start_game_def ProjectileManager_clear_def set_active_def
        ParticleSystem_init_def)

lemma start_game_inv: "session_inv (start_game g)"
  by (simp add: session_inv_def start_game_fields)

lemma reset_game_inv: "session_inv g \<Longrightarrow> session_inv (reset_game g)"
  by (simp add: session_inv_def reset_game_def calls_since_start_append)

lemma handle_events_inv:
  "session_inv g \<Longrightarrow> handle_events evs g = (b, g') \<Longrightarrow> session_inv g'"
proof (induction evs g rule: handle_events.induct)
  case (1 g)
  then show ?case by simp
next
  case (2 evs g)
  then show ?case by simp
next
  case (3 w h evs g)
  have "session_inv (g\<lparr>SCREEN_WIDTH := w, SCREEN_HEIGHT := h\<rparr>)"
    using "3.prems"(1) by (simp add: session_inv_def)
  then show ?case using "3.IH" "3.prems"(2) by simp
next
  case (4 button pos evs g)
  let ?g1 = "(if button = 1 then
          (if state g = MENU \<and> (case start_button_rect g of None \<Rightarrow> False | Some r \<Rightarrow> Rect_bool r)
           then (if collidepoint (the (start_button_rect g)) pos then start_game g else g)
           else if state g = GAME_OVER then reset_game g
           else g)
        else g)"
  have "session_inv ?g1"
    using "4.prems"(1) by (simp add: start_game_inv reset_game_inv)
  then show ?case using "4.IH" "4.prems"(2) by simp
next
  case (5 evs g)
  then show ?case by simp
qed

lemma update_game_inv:
  assumes "session_inv g" "update_game ks g = Inr g'"
  shows "session_inv g'"
proof (cases "state g = PLAYING")
  case False
  with assms show ?thesis by (simp add: update_game_def)
next
  case playing: True
  show ?thesis
  proof (cases "\<not> cutscene_triggered g \<and> CUTSCENE_TRIGGER_SCORE \<le> score g")
    case True
    with playing assms(2) have g': "g' = trigger_cutscene g"
      by (simp add: update_game_def)
    from assms(1) True playing show ?thesis
      by (simp add: g' session_inv_def trigger_cutscene_fields calls_since_start_append)
  next
    case False
    then have n: "cutscene_triggered g \<or> score g < CUTSCENE_TRIGGER_SCORE" by auto
    note u = update_game_normal[OF playing n assms(2)]
    from u(3) obtain L where L: "lives g \<le> L"
      "(lives g' = L \<and> state g' = PLAYING \<and> call_log g' = call_log g)
        \<or> (lives g' = L - 1 \<and> 0 < lives g' \<and> state g' = PLAYING
            \<and> call_log g' = call_log g @ [Hit_sound_play])
        \<or> (lives g' = L - 1 \<and> lives g' \<le> 0 \<and> state g' = GAME_OVER
            \<and> call_log g' = call_log g @ [Hit_sound_play, Music_stop, Game_over_sound_play])"
      by blast
    have pos: "0 < lives g" using assms(1) playing by (simp add: session_inv_def)
    have c: "count_list (calls_since_start (call_log g')) Cutscene_start_call
              = count_list (calls_since_start (call_log g)) Cutscene_start_call"
      using L(2) by (auto simp: calls_since_start_append)
    have l: "0 \<le> lives g'" "state g' = PLAYING \<or> state g' = CUTSCENE \<longrightarrow> 0 < lives g'"
      using L pos by auto
    from assms(1) n show ?thesis
      unfolding session_inv_def using c l u(1,2) by auto
  qed
qed

lemma update_cutscene_inv:
  assumes "session_inv g" "state g = CUTSCENE"
  shows "session_inv (update_cutscene g)"
proof -
  obtain finished cs c where u: "Cutscene_update (clock g) (cutscene g) = (finished, cs, c)"
    by (cases "Cutscene_update (clock g) (cutscene g)")
  show ?thesis
  proof (cases finished)
    case True
    with u have "update_cutscene g = g\<lparr>cutscene := cs, clock := c, state := PLAYING,
                  player := Player_freeze False (player g),
                  projectile_manager := set_active True (projectile_manager g)\<rparr>"
      by (simp add: update_cutscene_def)
    with assms show ?thesis by (simp add: session_inv_def)
  next
    case False
    with u have "update_cutscene g = g\<lparr>cutscene := cs, clock := c\<rparr>"
      by (simp add: update_cutscene_def)
    with assms show ?thesis by (simp add: session_inv_def)
  qed
qed

lemma update_opening_crawl_inv:
  assumes "session_inv g" "state g = OPENING_CRAWL" "update_opening_crawl g = Inr g'"
  shows "session_inv g'"
proof -
  from assms(3) obtain finished oc where
    g': "g' = g\<lparr>opening_crawl := oc, state := (if finished then MENU else state g)\<rparr>"
    by (cases "OpeningCrawl_update (opening_crawl g)")
       (auto simp: update_opening_crawl_def)
  show ?thesis
  proof (cases finished)
    case True
    with assms(1) show ?thesis by (simp add: g' session_inv_def)
  next
    case False
    with assms(1,2) show ?thesis by (simp add: g' session_inv_def)
  qed
qed

lemma update_inv:
  assumes "session_inv g" "update ks g = Inr g'"
  shows "session_inv g'"
proof -
  consider (crawl) "state g = OPENING_CRAWL" | (playing) "state g = PLAYING"
    | (cutscene) "state g = CUTSCENE" | (other) "state g = MENU \<or> state g = GAME_OVER"
    by (cases "state g") auto
  then show ?thesis
  proof cases
    case crawl
    with assms(2) have "update_opening_crawl g = Inr g'" by (simp add: update_def)
    from update_opening_crawl_inv[OF assms(1) crawl this] show ?thesis .
  next
    case playing
    with assms(2) have "update_game ks g = Inr g'" by (simp add: update_def)
    from update_game_inv[OF assms(1) this] show ?thesis .
  next
    case cutscene
    with assms(2) have "g' = update_cutscene g" by (simp add: update_def)
    with update_cutscene_inv[OF assms(1) cutscene] show ?thesis by simp
  next
    case other
    with assms(2) have "g' = g" by (auto simp: update_def)
    with assms(1) show ?thesis by simp
  qed
qed

lemma draw_cases:
  assumes "draw g = Inr g'"
  shows "(\<exists>s. g' = g\<lparr>rng := s\<rparr>) \<or> (\<exists>r. g' = g\<lparr>start_button_rect := r\<rparr>)
         \<or> (\<exists>c. g' = g\<lparr>clock := c\<rparr>) \<or> g' = g"
proof -
  consider (crawl) "state g = OPENING_CRAWL" | (menu) "state g = MENU"
    | (game) "state g = PLAYING \<or> state g = CUTSCENE" | (over) "state g = GAME_OVER"
    by (cases "state g") auto
  then show ?thesis
  proof cases
    case crawl
    with assms have "g' = g\<lparr>rng := sdrop 150 (rng g)\<rparr>"
      by (simp add: draw_def split: if_splits)
    then show ?thesis by blast
  next
    case menu
    with assms have "g' = g\<lparr>start_button_rect :=
                 Some (set_center (SCREEN_WIDTH g div 2, SCREEN_HEIGHT g div 2)
                         (pygame_Rect 0 0 (fst (start_button_size (asset_manager g)))
                                          (snd (start_button_size (asset_manager g)))))\<rparr>"
      by (auto simp: draw_def)
    then show ?thesis by blast
  next
    case game
    with assms have "g' = g\<lparr>clock := sdrop (if shield_active (player g) then 3 else 1) (clock g)\<rparr>"
      by (auto simp: draw_def)
    then show ?thesis by blast
  next
    case over
    with assms show ?thesis by (simp add: draw_def)
  qed
qed

lemma draw_inv:
  assumes "session_inv g" "draw g = Inr g'"
  shows "session_inv g'"
  using draw_cases[OF assms(2)] assms(1) by (auto simp: session_inv_def)

lemma run_iteration_inv:
  assumes "session_inv g" "run_iteration evs ks g = Inr (b, g')"
  shows "session_inv g'"
proof -
  obtain running g1 where h: "handle_events evs g = (running, g1)"
    by (cases "handle_events evs g")
  have i1: "session_inv g1" using handle_events_inv[OF assms(1) h] .
  show ?thesis
  proof (cases running)
    case False
    with assms(2) h have "g' = g1" by (simp add: run_iteration_def)
    with i1 show ?thesis by simp
  next
    case True
    with assms(2) h obtain g2 where u: "update ks g1 = Inr g2" and d: "draw g2 = Inr g'"
      by (auto simp: run_iteration_def split: sum.splits)
    from draw_inv[OF update_inv[OF i1 u] d] show ?thesis .
  qed
qed

lemma reachable_inv: "reachable g \<Longrightarrow> session_inv g"
  by (induction rule: reachable.induct) (auto intro: Game_init_inv run_iteration_inv)

section \<open>From the construction to the first game\<close>

lemma handle_events_start:
  assumes "state g = MENU" "start_button_rect g = Some r" "Rect_bool r" "collidepoint r pos"
  shows "handle_events [MOUSEBUTTONDOWN 1 pos] g = (True, start_game g)"
  using assms by simp

lemma sdrop_sconst: "sdrop n (sconst x) = sconst x"
  by (induction n) simp_all

lemma crawl_after_0: "crawl_after 0 = OpeningCrawl_init 700"
  by (simp add: crawl_after_def OpeningCrawl_init_def)

lemma crawl_after_last:
  "last (map (\<lambda>y. y - scroll_speed (crawl_after n)) (text_y_positions (crawl_after n)))
     = 1850 - 1.5 * real (Suc n)"
  by (simp add: crawl_after_def last_map field_simps)

lemma crawl_after_scroll:
  "map (\<lambda>y. y - scroll_speed (crawl_after n)) (text_y_positions (crawl_after n))
     = text_y_positions (crawl_after (Suc n))"
  by (simp add: crawl_after_def field_simps)

lemma OpeningCrawl_update_running:
  assumes "n < 1300"
  shows "OpeningCrawl_update (crawl_after n) = Inr (False, crawl_after (Suc n))"
proof -
  have l: "\<not> 1850 - 1.5 * real (Suc n) < - 100" using assms by simp
  have ne: "text_y_positions (crawl_after (Suc n)) \<noteq> []" by (simp add: crawl_after_def)
  have c: "(60 < int n + 1 \<or> can_skip (crawl_after n)) = (60 < Suc n)"
    by (auto simp: crawl_after_def)
  show ?thesis
    unfolding OpeningCrawl_update_def Let_def
    using l ne c crawl_after_last[of n] crawl_after_scroll[of n]
    by (simp add: crawl_after_def)
qed

lemma OpeningCrawl_update_finished:
  "OpeningCrawl_update (crawl_after 1300)
     = Inr (True, (crawl_after 1300)\<lparr>text_y_positions := text_y_positions (crawl_after 1301)\<rparr>)"
proof -
  have l: "1850 - 1.5 * real (Suc 1300) < - 100" by simp
  have ne: "text_y_positions (crawl_after (Suc 1300)) \<noteq> []" by (simp add: crawl_after_def)
  have s: "Suc 1300 = 1301" by simp
  show ?thesis
    unfolding OpeningCrawl_update_def Let_def
    using l ne crawl_after_last[of 1300] crawl_after_scroll[of 1300]
    by (simp add: s)
qed

lemma sample_crawl_game_0:
  "Game_init sample_assets (sconst 2000) (sconst (1 / 2)) (sconst True)
     = Inr (sample_crawl_game 0)"
  by (simp add: Game_init_def Player_init_def sample_assets_def sample_game_def
        sample_crawl_game_def crawl_after_0 sample_player_def set_center_def pygame_Rect_def)

lemma sample_crawl_game_turn:
  assumes "n < 1300"
  shows "run_iteration [] no_keys (sample_crawl_game n) = Inr (True, sample_crawl_game (Suc n))"
proof -
  have u: "update no_keys (sample_crawl_game n) = Inr (sample_crawl_game (Suc n))"
    by (simp add: update_def update_opening_crawl_def sample_crawl_game_def
          OpeningCrawl_update_running[OF assms])
  have d: "draw (sample_crawl_game (Suc n)) = Inr (sample_crawl_game (Suc n))"
    by (simp add: draw_def sample_crawl_game_def sample_game_def sdrop_sconst)
  show ?thesis by (simp add: run_iteration_def u d)
qed

lemma sample_crawl_game_reachable: "n \<le> 1300 \<Longrightarrow> reachable (sample_crawl_game n)"
proof (induction n)
  case 0
  show ?case using sample_crawl_game_0 by (rule reachable.init)
next
  case (Suc n)
  then have "reachable (sample_crawl_game n)" "n < 1300" by simp_all
  then show ?case using sample_crawl_game_turn by (blast intro: reachable.turn)
qed

lemma sample_menu_game_turn:
  "run_iteration [] no_keys (sample_crawl_game 1300) = Inr (True, sample_menu_game)"
proof -
  have u: "update no_keys (sample_crawl_game 1300)
             = Inr (sample_menu_game\<lparr>start_button_rect := None\<rparr>)"
    by (simp add: update_def update_opening_crawl_def sample_crawl_game_def
          sample_menu_game_def sample_game_def OpeningCrawl_update_finished)
  have d: "draw (sample_menu_game\<lparr>start_button_rect := None\<rparr>) = Inr sample_menu_game"
    by (simp add: draw_def sample_menu_game_def sample_game_def sample_assets_def
          set_center_def pygame_Rect_def)
  show ?thesis by (simp add: run_iteration_def u d)
qed

lemma sample_menu_game_reachable: "reachable sample_menu_game"
  using sample_crawl_game_reachable[of 1300] sample_menu_game_turn
  by (blast intro: reachable.turn)

text \<open>A click on the start button of the menu: the game starts and is updated once in
  the same turn of the loop.\<close>

lemma sample_first_playing_turn:
  "\<exists>g. run_iteration [MOUSEBUTTONDOWN 1 (450, 350)] no_keys sample_menu_game = Inr (True, g)
       \<and> state g = PLAYING \<and> \<not> cutscene_triggered g \<and> score g = 1"
proof -
  let ?s = "start_game sample_menu_game"
  have h: "handle_events [MOUSEBUTTONDOWN 1 (450, 350)] sample_menu_game = (True, ?s)"
    by (rule handle_events_start[where r = "pygame_Rect 350 310 200 80"])
       (simp_all add: sample_menu_game_def Rect_bool_def collidepoint_def pygame_Rect_def)
  have p: "state ?s = PLAYING" "\<not> cutscene_triggered ?s" "score ?s = 0" "lives ?s = 3"
    using start_game_fields[of sample_menu_game] by simp_all
  have q: "0 < n_frames (player ?s)" "100 \<le> SCREEN_WIDTH ?s" "100 \<le> SCREEN_HEIGHT ?s"
    by (simp_all add: start_game_def sample_menu_game_def sample_game_def sample_player_def)
  from update_game_total[OF q] obtain g2 where u: "update_game no_keys ?s = Inr g2"
    by blast
  have n: "cutscene_triggered ?s \<or> score ?s < CUTSCENE_TRIGGER_SCORE" using p by simp
  note f = update_game_normal[OF p(1) n u]
  have l: "0 < lives ?s" using p by simp
  have "0 < lives g2 \<or> state g2 \<noteq> GAME_OVER"
    using f(3) p(4) by auto
  with f(3) p(4) have st: "state g2 = PLAYING" by auto
  from draw_cases[of g2] st obtain g3 where d: "draw g2 = Inr g3"
    by (auto simp: draw_def)
  from draw_cases[OF d] have "state g3 = state g2"
    "cutscene_triggered g3 = cutscene_triggered g2" "score g3 = score g2"
    by auto
  with st f(1,2) p have g3: "state g3 = PLAYING" "\<not> cutscene_triggered g3" "score g3 = 1"
    by simp_all
  have "update no_keys ?s = Inr g2" using p(1) u by (simp add: update_def)
  with h d have "run_iteration [MOUSEBUTTONDOWN 1 (450, 350)] no_keys sample_menu_game
                   = Inr (True, g3)"
    by (simp add: run_iteration_def)
  with g3 show ?thesis by blast
qed

lemma reachable_playing:
  "\<exists>g. reachable g \<and> state g = PLAYING \<and> \<not> cutscene_triggered g \<and> score g = 1"
  using sample_first_playing_turn sample_menu_game_reachable
  by (blast intro: reachable.turn)

section \<open>Lives and game over\<close>

lemma check_collisions_hit:
  assumes "check_collisions g = Inr g'" "\<not> shield_active (player g)"
      and "\<exists>a\<in>set (projectiles (projectile_manager g)).
             colliderect (proj_rect a) (rect (player g))"
  shows "lives g' = lives g - 1"
proof -
  from assms(3) have "first_collision (rect (player g)) (projectiles (projectile_manager g)) \<noteq> None"
    by (simp add: first_collision_None)
  then obtain i where
    "first_collision (rect (player g)) (projectiles (projectile_manager g)) = Some i"
    by blast
  with assms(2) have c: "check_collision (rect (player g)) (player g) (projectile_manager g)
      = (True, (projectile_manager g)\<lparr>projectiles := del_at i (projectiles (projectile_manager g))\<rparr>)"
    by (simp add: check_collision_def)
  obtain ps s where
    e: "add_explosion (real_of_int (centerx (rect (player g))))
          (real_of_int (centery (rect (player g)))) RED (particle_system g) (rng g)
        = Inr (ps, s)"
    using add_explosion_total by blast
  from assms(1,2) c e show ?thesis
    by (cases "lives g - 1 \<le> 0") (auto simp: check_collisions_def Let_def)
qed

lemma update_game_lives:
  assumes "state h = PLAYING" "0 < lives h" "update_game ks h = Inr h'"
  shows "0 \<le> lives h'"
    and "lives h' \<le> 0 \<longrightarrow>
           state h' = GAME_OVER
           \<and> call_log h' = call_log h @ [Hit_sound_play, Music_stop, Game_over_sound_play]"
    and "0 < lives h' \<longrightarrow> state h' \<noteq> GAME_OVER"
proof -
  have "0 \<le> lives h'
      \<and> (lives h' \<le> 0 \<longrightarrow>
           state h' = GAME_OVER
           \<and> call_log h' = call_log h @ [Hit_sound_play, Music_stop, Game_over_sound_play])
      \<and> (0 < lives h' \<longrightarrow> state h' \<noteq> GAME_OVER)"
  proof (cases "\<not> cutscene_triggered h \<and> CUTSCENE_TRIGGER_SCORE \<le> score h")
    case True
    with assms(1,3) have "h' = trigger_cutscene h" by (simp add: update_game_def)
    with assms(2) show ?thesis by (simp add: trigger_cutscene_fields)
  next
    case False
    then have n: "cutscene_triggered h \<or> score h < CUTSCENE_TRIGGER_SCORE" by auto
    from update_game_normal(3)[OF assms(1) n assms(3)] obtain L where "lives h \<le> L"
      "(lives h' = L \<and> state h' = PLAYING \<and> call_log h' = call_log h)
        \<or> (lives h' = L - 1 \<and> 0 < lives h' \<and> state h' = PLAYING
            \<and> call_log h' = call_log h @ [Hit_sound_play])
        \<or> (lives h' = L - 1 \<and> lives h' \<le> 0 \<and> state h' = GAME_OVER
            \<and> call_log h' = call_log h @ [Hit_sound_play, Music_stop, Game_over_sound_play])"
      by blast
    with assms(2) show ?thesis by auto
  qed
  then show "0 \<le> lives h'"
    and "lives h' \<le> 0 \<longrightarrow>
           state h' = GAME_OVER
           \<and> call_log h' = call_log h @ [Hit_sound_play, Music_stop, Game_over_sound_play]"
    and "0 < lives h' \<longrightarrow> state h' \<noteq> GAME_OVER"
    by simp_all
qed

text \<open>
  C1. In every reachable state of the session the lives are not negative, and they are
  positive while the state is PLAYING. An update that starts in PLAYING with positive
  lives and completes leaves the lives non-negative; when it brings them to 0 it has set
  the state to GAME_OVER in the same update and has played the hit sound, stopped the
  music and played the game-over sound, in this order; when it leaves them positive the
  state is not GAME_OVER.
\<close>

theorem lives_never_negative_game_over_at_zero:
  "(reachable g \<longrightarrow> 0 \<le> lives g \<and> (state g = PLAYING \<longrightarrow> 0 < lives g))
   \<and> (state h = PLAYING \<and> 0 < lives h \<and> update_game ks h = Inr h' \<longrightarrow>
        0 \<le> lives h'
        \<and> (lives h' \<le> 0 \<longrightarrow>
              state h' = GAME_OVER
              \<and> call_log h' = call_log h @ [Hit_sound_play, Music_stop, Game_over_sound_play])
        \<and> (0 < lives h' \<longrightarrow> state h' \<noteq> GAME_OVER))"
proof (rule conjI)
  show "reachable g \<longrightarrow> 0 \<le> lives g \<and> (state g = PLAYING \<longrightarrow> 0 < lives g)"
  proof
    assume "reachable g"
    then have "session_inv g" by (rule reachable_inv)
    then show "0 \<le> lives g \<and> (state g = PLAYING \<longrightarrow> 0 < lives g)"
      by (simp add: session_inv_def)
  qed
  show "state h = PLAYING \<and> 0 < lives h \<and> update_game ks h = Inr h' \<longrightarrow>
        0 \<le> lives h'
        \<and> (lives h' \<le> 0 \<longrightarrow>
              state h' = GAME_OVER
              \<and> call_log h' = call_log h @ [Hit_sound_play, Music_stop, Game_over_sound_play])
        \<and> (0 < lives h' \<longrightarrow> state h' \<noteq> GAME_OVER)"
    using update_game_lives[of h ks h'] by blast
qed

subsection \<open>The sample game loses its last life\<close>

lemma sample_last_life_block_1:
  "handle_player_input no_keys sample_game_last_life = Inr sample_game_last_life"
  by (simp add: handle_player_input_def sample_game_last_life_def sample_game_def
        sample_player_def Player_move_def no_keys_def clamp_ip_def pygame_Rect_def)

lemma sample_last_life_block_2:
  "handle_dash no_keys sample_game_last_life = Inr sample_game_last_life"
  by (simp add: handle_dash_def sample_game_last_life_def sample_game_def sample_player_def
        Player_dash_def no_keys_def)

lemma sample_last_life_block_3:
  "update_player sample_game_last_life
     = Inr (sample_game_last_life\<lparr>player := sample_player\<lparr>frame_counter := 1\<rparr>\<rparr>)"
  by (simp add: update_player_def sample_game_last_life_def sample_game_def sample_player_def
        Player_update_def advance_animation_def expire_effects_def decay_dash_trail_def)

lemma sample_last_life_block_4:
  "update_game_difficulty (sample_game_last_life\<lparr>player := sample_player\<lparr>frame_counter := 1\<rparr>\<rparr>)
     = Inr (sample_game_last_life\<lparr>player := sample_player\<lparr>frame_counter := 1\<rparr>\<rparr>)"
  by (simp add: update_game_difficulty_def sample_game_last_life_def sample_game_def
        update_difficulty_def ProjectileManager_init_def)

lemma sample_last_life_block_5:
  "update_projectiles (sample_game_last_life\<lparr>player := sample_player\<lparr>frame_counter := 1\<rparr>\<rparr>)
     = Inr sample_game_before_hit"
  by (simp add: update_projectiles_def sample_game_before_hit_def sample_game_last_life_def
        sample_game_def sample_player_def ProjectileManager_update_def ProjectileManager_init_def
        fire_delay_def Projectile_update_def Projectile_init_def pygame_Rect_def center_def
        centerx_def centery_def)

lemma sample_last_life_block_6:
  "update_particles sample_game_before_hit = Inr sample_game_before_hit"
  by (simp add: update_particles_def sample_game_before_hit_def sample_game_last_life_def
        sample_game_def ParticleSystem_update_def ParticleSystem_init_def)

lemma sample_last_life_block_7:
  "update_powerups sample_game_before_hit = Inr sample_game_before_hit"
  by (simp add: update_powerups_def sample_game_before_hit_def sample_game_last_life_def
        sample_game_def)

lemma sample_last_life_block_8:
  "spawn_powerups sample_game_before_hit = Inr sample_game_before_hit"
  by (simp add: spawn_powerups_def random_random_def sample_game_before_hit_def
        sample_game_last_life_def sample_game_def)

lemma sample_last_life_block_9:
  "collect_powerups sample_game_before_hit = Inr sample_game_before_hit"
  by (simp add: collect_powerups_def sample_game_before_hit_def sample_game_last_life_def
        sample_game_def)

lemma sample_last_life_nine_blocks:
  "seq_steps [handle_player_input no_keys, handle_dash no_keys, update_player,
              update_game_difficulty, update_projectiles, update_particles,
              update_powerups, spawn_powerups, collect_powerups] sample_game_last_life
     = Inr sample_game_before_hit"
  by (simp add: sample_last_life_block_1 sample_last_life_block_2 sample_last_life_block_3
        sample_last_life_block_4 sample_last_life_block_5 sample_last_life_block_6
        sample_last_life_block_7 sample_last_life_block_8 sample_last_life_block_9)

lemma sample_last_life_update:
  "\<exists>h'. update_game no_keys sample_game_last_life = Inr h' \<and> lives h' = 0"
proof -
  have p: "state sample_game_last_life = PLAYING"
    "cutscene_triggered sample_game_last_life \<or> score sample_game_last_life < CUTSCENE_TRIGGER_SCORE"
    "0 < n_frames (player sample_game_last_life)"
    "100 \<le> SCREEN_WIDTH sample_game_last_life" "100 \<le> SCREEN_HEIGHT sample_game_last_life"
    by (simp_all add: sample_game_last_life_def sample_game_def sample_player_def)
  from update_game_total[OF p(3-5)] obtain h' where
    u: "update_game no_keys sample_game_last_life = Inr h'"
    by blast
  from update_game_blocks[OF p(1,2) u] obtain g9 g10 where
    b: "seq_steps [handle_player_input no_keys, handle_dash no_keys, update_player,
              update_game_difficulty, update_projectiles, update_particles,
              update_powerups, spawn_powerups, collect_powerups] sample_game_last_life
          = Inr g9"
       "check_collisions g9 = Inr g10" "lives h' = lives g10"
    by metis
  from b(1) have "Inr sample_game_before_hit = (Inr g9 :: py_error + Game)"
    by (simp only: sample_last_life_nine_blocks)
  then have g9: "g9 = sample_game_before_hit"
    by simp
  have "\<not> shield_active (player sample_game_before_hit)"
    by (simp add: sample_game_before_hit_def sample_player_def)
  moreover have "\<exists>a\<in>set (projectiles (projectile_manager sample_game_before_hit)).
             colliderect (proj_rect a) (rect (player sample_game_before_hit))"
    by (simp add: sample_game_before_hit_def sample_player_def colliderect_def pygame_Rect_def)
  ultimately have "lives g10 = lives sample_game_before_hit - 1"
    using check_collisions_hit b(2) g9 by blast
  then have "lives h' = 0"
    by (simp add: b(3) sample_game_before_hit_def sample_game_last_life_def)
  with u show ?thesis by blast
qed

theorem lives_never_negative_game_over_at_zero_witness:
  "(\<exists>g. reachable g \<and> state g = PLAYING \<and> 0 \<le> lives g \<and> 0 < lives g)
   \<and> state sample_game_last_life = PLAYING \<and> 0 < lives sample_game_last_life
   \<and> (\<exists>h'. update_game no_keys sample_game_last_life = Inr h' \<and> lives h' \<le> 0
          \<and> state h' = GAME_OVER
          \<and> call_log h' = call_log sample_game_last_life
                           @ [Hit_sound_play, Music_stop, Game_over_sound_play])"
proof -
  from reachable_playing obtain g where r: "reachable g" "state g = PLAYING"
    by blast
  have p: "state sample_game_last_life = PLAYING" "0 < lives sample_game_last_life"
    by (simp_all add: sample_game_last_life_def sample_game_def)
  from sample_last_life_update obtain h' where
    u: "update_game no_keys sample_game_last_life = Inr h'" "lives h' = 0"
    by blast
  from lives_never_negative_game_over_at_zero [of g sample_game_last_life no_keys h'] r p u
  show ?thesis by auto
qed

section \<open>Score\<close>

text \<open>
  C5, amended. An update that starts in PLAYING and does not fire the cutscene trigger
  (the flag is already set, or the score is below the trigger score) adds exactly 1 to
  the score whenever it completes, whatever else happens in it, and it does complete when
  the player has a frame and the screen is at least 100 by 100. The update that fires the
  trigger returns before the score is touched: the score is unchanged.
\<close>

theorem score_increment_outside_trigger:
  "(state g = PLAYING \<and> (cutscene_triggered g \<or> score g < CUTSCENE_TRIGGER_SCORE) \<longrightarrow>
      (\<forall>g'. update_game ks g = Inr g' \<longrightarrow> score g' = score g + 1)
      \<and> (0 < n_frames (player g) \<and> 100 \<le> SCREEN_WIDTH g \<and> 100 \<le> SCREEN_HEIGHT g
           \<longrightarrow> (\<exists>g'. update_game ks g = Inr g')))
   \<and> (state g = PLAYING \<and> \<not> cutscene_triggered g \<and> CUTSCENE_TRIGGER_SCORE \<le> score g \<longrightarrow>
        update_game ks g = Inr (trigger_cutscene g)
        \<and> score (trigger_cutscene g) = score g)"
  using update_game_normal(1)[of g ks] update_game_total[of g ks] update_game_trigger[of g ks]
        trigger_cutscene_fields(8)[of g]
  by blast

theorem score_increment_outside_trigger_witness:
  "state sample_game = PLAYING \<and> score sample_game < CUTSCENE_TRIGGER_SCORE
   \<and> 0 < n_frames (player sample_game)
   \<and> 100 \<le> SCREEN_WIDTH sample_game \<and> 100 \<le> SCREEN_HEIGHT sample_game
   \<and> (\<exists>g'. update_game no_keys sample_game = Inr g' \<and> score g' = score sample_game + 1)
   \<and> state sample_game_at_trigger = PLAYING \<and> \<not> cutscene_triggered sample_game_at_trigger
   \<and> CUTSCENE_TRIGGER_SCORE \<le> score sample_game_at_trigger
   \<and> update_game no_keys sample_game_at_trigger = Inr (trigger_cutscene sample_game_at_trigger)
   \<and> score (trigger_cutscene sample_game_at_trigger) = 1000"
proof -
  have a: "state sample_game = PLAYING" "score sample_game < CUTSCENE_TRIGGER_SCORE"
    "0 < n_frames (player sample_game)"
    "100 \<le> SCREEN_WIDTH sample_game" "100 \<le> SCREEN_HEIGHT sample_game"
    by (simp_all add: sample_game_def sample_player_def)
  have b: "state sample_game_at_trigger = PLAYING" "\<not> cutscene_triggered sample_game_at_trigger"
    "CUTSCENE_TRIGGER_SCORE \<le> score sample_game_at_trigger" "score sample_game_at_trigger = 1000"
    by (simp_all add: sample_game_at_trigger_def sample_game_def)
  from score_increment_outside_trigger[of sample_game no_keys] a
  have "\<exists>g'. update_game no_keys sample_game = Inr g' \<and> score g' = score sample_game + 1"
    by blast
  moreover from score_increment_outside_trigger[of sample_game_at_trigger no_keys] b
  have "update_game no_keys sample_game_at_trigger = Inr (trigger_cutscene sample_game_at_trigger)
        \<and> score (trigger_cutscene sample_game_at_trigger) = 1000"
    by simp
  ultimately show ?thesis using a b by blast
qed

text \<open>
  C5 as stated fails: this update starts in PLAYING with the score at 1000 and the flag
  not set; it completes, in the cutscene, with the score still 1000.
\<close>

theorem score_unchanged_by_trigger_counterexample:
  "state sample_game_at_trigger = PLAYING
   \<and> update_game no_keys sample_game_at_trigger = Inr (trigger_cutscene sample_game_at_trigger)
   \<and> score sample_game_at_trigger = 1000
   \<and> score (trigger_cutscene sample_game_at_trigger) = 1000
   \<and> score (trigger_cutscene sample_game_at_trigger) \<noteq> score sample_game_at_trigger + 1"
  by (simp add: update_game_def trigger_cutscene_def sample_game_at_trigger_def sample_game_def)

section \<open>The cutscene starts once in a session\<close>

lemma update_game_no_cutscene_start:
  assumes "cutscene_triggered k \<or> score k < CUTSCENE_TRIGGER_SCORE \<or> state k \<noteq> PLAYING"
      and "update_game ks k = Inr k'"
  shows "cutscene_triggered k' = cutscene_triggered k"
    and "\<exists>xs. call_log k' = call_log k @ xs \<and> Cutscene_start_call \<notin> set xs"
proof -
  have "cutscene_triggered k' = cutscene_triggered k
        \<and> (\<exists>xs. call_log k' = call_log k @ xs \<and> Cutscene_start_call \<notin> set xs)"
  proof (cases "state k = PLAYING")
    case False
    with assms(2) have "k' = k" by (simp add: update_game_def)
    then show ?thesis by simp
  next
    case True
    with assms(1) have n: "cutscene_triggered k \<or> score k < CUTSCENE_TRIGGER_SCORE" by simp
    note u = update_game_normal[OF True n assms(2)]
    from u(3) have "call_log k' = call_log k @ []
        \<or> call_log k' = call_log k @ [Hit_sound_play]
        \<or> call_log k' = call_log k @ [Hit_sound_play, Music_stop, Game_over_sound_play]"
      by auto
    then have "\<exists>xs. call_log k' = call_log k @ xs \<and> Cutscene_start_call \<notin> set xs"
      by (elim disjE) (rule exI, erule conjI, simp)+
    with u(2) show ?thesis by simp
  qed
  then show "cutscene_triggered k' = cutscene_triggered k"
    and "\<exists>xs. call_log k' = call_log k @ xs \<and> Cutscene_start_call \<notin> set xs"
    by simp_all
qed

text \<open>
  C4. In every reachable state, the calls made since the latest \<open>start_game\<close> contain
  \<open>Cutscene.start\<close> once if the flag is set and not at all otherwise; the flag is set only
  with a score of at least 1000 and is never unset with a score beyond 1000, so the
  trigger fires on the first update of the session that starts in PLAYING with a score of
  at least 1000. That update completes, calls \<open>Cutscene.start\<close> once, sets the flag and
  the state CUTSCENE, freezes the player and disables the projectile manager. An update
  that starts with the flag set, or with a score below 1000, or outside PLAYING, leaves
  the flag as it is and makes no call of \<open>Cutscene.start\<close>.
\<close>

theorem cutscene_starts_once_per_session:
  "(reachable g \<longrightarrow>
      count_list (calls_since_start (call_log g)) Cutscene_start_call
        = (if cutscene_triggered g then 1 else 0)
      \<and> (cutscene_triggered g \<longrightarrow> CUTSCENE_TRIGGER_SCORE \<le> score g)
      \<and> (\<not> cutscene_triggered g \<longrightarrow> score g \<le> CUTSCENE_TRIGGER_SCORE))
   \<and> (state h = PLAYING \<and> \<not> cutscene_triggered h \<and> CUTSCENE_TRIGGER_SCORE \<le> score h \<longrightarrow>
        update_game ks h = Inr (trigger_cutscene h)
        \<and> state (trigger_cutscene h) = CUTSCENE \<and> cutscene_triggered (trigger_cutscene h)
        \<and> frozen (player (trigger_cutscene h))
        \<and> \<not> pm_active (projectile_manager (trigger_cutscene h))
        \<and> cs_active (cutscene (trigger_cutscene h))
        \<and> call_log (trigger_cutscene h) = call_log h @ [Cutscene_start_call])
   \<and> ((cutscene_triggered k \<or> score k < CUTSCENE_TRIGGER_SCORE \<or> state k \<noteq> PLAYING)
        \<and> update_game ks k = Inr k' \<longrightarrow>
        cutscene_triggered k' = cutscene_triggered k
        \<and> (\<exists>xs. call_log k' = call_log k @ xs \<and> Cutscene_start_call \<notin> set xs))"
proof (intro conjI)
  show "reachable g \<longrightarrow>
      count_list (calls_since_start (call_log g)) Cutscene_start_call
        = (if cutscene_triggered g then 1 else 0)
      \<and> (cutscene_triggered g \<longrightarrow> CUTSCENE_TRIGGER_SCORE \<le> score g)
      \<and> (\<not> cutscene_triggered g \<longrightarrow> score g \<le> CUTSCENE_TRIGGER_SCORE)"
  proof
    assume "reachable g"
    then have "session_inv g" by (rule reachable_inv)
    then show "count_list (calls_since_start (call_log g)) Cutscene_start_call
        = (if cutscene_triggered g then 1 else 0)
      \<and> (cutscene_triggered g \<longrightarrow> CUTSCENE_TRIGGER_SCORE \<le> score g)
      \<and> (\<not> cutscene_triggered g \<longrightarrow> score g \<le> CUTSCENE_TRIGGER_SCORE)"
      unfolding session_inv_def by blast
  qed
  show "state h = PLAYING \<and> \<not> cutscene_triggered h \<and> CUTSCENE_TRIGGER_SCORE \<le> score h \<longrightarrow>
        update_game ks h = Inr (trigger_cutscene h)
        \<and> state (trigger_cutscene h) = CUTSCENE \<and> cutscene_triggered (trigger_cutscene h)
        \<and> frozen (player (trigger_cutscene h))
        \<and> \<not> pm_active (projectile_manager (trigger_cutscene h))
        \<and> cs_active (cutscene (trigger_cutscene h))
        \<and> call_log (trigger_cutscene h) = call_log h @ [Cutscene_start_call]"
    using update_game_trigger[of h ks] trigger_cutscene_fields[of h] by blast
  show "(cutscene_triggered k \<or> score k < CUTSCENE_TRIGGER_SCORE \<or> state k \<noteq> PLAYING)
        \<and> update_game ks k = Inr k' \<longrightarrow>
        cutscene_triggered k' = cutscene_triggered k
        \<and> (\<exists>xs. call_log k' = call_log k @ xs \<and> Cutscene_start_call \<notin> set xs)"
    using update_game_no_cutscene_start[of k ks k'] by blast
qed

theorem cutscene_starts_once_per_session_witness:
  "(\<exists>g. reachable g \<and> state g = PLAYING \<and> \<not> cutscene_triggered g
        \<and> count_list (calls_since_start (call_log g)) Cutscene_start_call = 0
        \<and> score g \<le> CUTSCENE_TRIGGER_SCORE)
   \<and> state sample_game_at_trigger = PLAYING \<and> \<not> cutscene_triggered sample_game_at_trigger
   \<and> CUTSCENE_TRIGGER_SCORE \<le> score sample_game_at_trigger
   \<and> update_game no_keys sample_game_at_trigger = Inr (trigger_cutscene sample_game_at_trigger)
   \<and> call_log (trigger_cutscene sample_game_at_trigger)
       = call_log sample_game_at_trigger @ [Cutscene_start_call]
   \<and> cutscene_triggered (sample_game_at_trigger\<lparr>cutscene_triggered := True, score := 1001\<rparr>)
   \<and> (\<exists>k'. update_game no_keys (sample_game_at_trigger\<lparr>cutscene_triggered := True, score := 1001\<rparr>)
              = Inr k'
          \<and> cutscene_triggered k'
          \<and> (\<exists>xs. call_log k'
                     = call_log (sample_game_at_trigger\<lparr>cutscene_triggered := True, score := 1001\<rparr>)
                       @ xs
                  \<and> Cutscene_start_call \<notin> set xs))"
proof -
  from reachable_playing obtain g where
    r: "reachable g" "state g = PLAYING" "\<not> cutscene_triggered g"
    by blast
  have b: "state sample_game_at_trigger = PLAYING" "\<not> cutscene_triggered sample_game_at_trigger"
    "CUTSCENE_TRIGGER_SCORE \<le> score sample_game_at_trigger"
    by (simp_all add: sample_game_at_trigger_def sample_game_def)
  have c: "cutscene_triggered (sample_game_at_trigger\<lparr>cutscene_triggered := True, score := 1001\<rparr>)"
    by simp
  have "0 < n_frames (player (sample_game_at_trigger\<lparr>cutscene_triggered := True, score := 1001\<rparr>))"
    "100 \<le> SCREEN_WIDTH (sample_game_at_trigger\<lparr>cutscene_triggered := True, score := 1001\<rparr>)"
    "100 \<le> SCREEN_HEIGHT (sample_game_at_trigger\<lparr>cutscene_triggered := True, score := 1001\<rparr>)"
    by (simp_all add: sample_game_at_trigger_def sample_game_def sample_player_def)
  from update_game_total[OF this] obtain k' where
    u: "update_game no_keys (sample_game_at_trigger\<lparr>cutscene_triggered := True, score := 1001\<rparr>)
          = Inr k'"
    by blast
  note t = cutscene_starts_once_per_session
             [of g sample_game_at_trigger no_keys
                 "sample_game_at_trigger\<lparr>cutscene_triggered := True, score := 1001\<rparr>" k']
  from t r
  have "count_list (calls_since_start (call_log g)) Cutscene_start_call = 0
        \<and> score g \<le> CUTSCENE_TRIGGER_SCORE"
    by simp
  moreover from t b
  have "update_game no_keys sample_game_at_trigger = Inr (trigger_cutscene sample_game_at_trigger)
        \<and> call_log (trigger_cutscene sample_game_at_trigger)
            = call_log sample_game_at_trigger @ [Cutscene_start_call]"
    by blast
  moreover from t c u
  have "cutscene_triggered k'
          \<and> (\<exists>xs. call_log k'
                     = call_log (sample_game_at_trigger\<lparr>cutscene_triggered := True, score := 1001\<rparr>)
                       @ xs
                  \<and> Cutscene_start_call \<notin> set xs)"
    by blast
  ultimately show ?thesis using r b c u by blast
qed

section \<open>A new game\<close>

text \<open>
  C10. \<open>start_game\<close> clears the cutscene flag, whatever it was, together with the lives
  (back to 3), the score (back to 0), the projectiles, the power-ups and the particles,
  and sets the state PLAYING; it is what a click on the start button does in the menu.
  From then on an update in PLAYING below the trigger score leaves the flag clear and adds
  1 to the score, and the update in PLAYING that finds the flag clear with the score at
  the trigger score or beyond starts the cutscene: the cutscene is triggered once per
  game, not once per process.
\<close>

theorem start_game_resets_cutscene_flag:
  "\<not> cutscene_triggered (start_game g) \<and> lives (start_game g) = INITIAL_LIVES
   \<and> score (start_game g) = 0
   \<and> projectiles (projectile_manager (start_game g)) = []
   \<and> powerups (start_game g) = [] \<and> particles (particle_system (start_game g)) = []
   \<and> state (start_game g) = PLAYING
   \<and> (state g = MENU \<and> start_button_rect g = Some r \<and> Rect_bool r \<and> collidepoint r pos
        \<longrightarrow> handle_events [MOUSEBUTTONDOWN 1 pos] g = (True, start_game g))
   \<and> (state h = PLAYING \<and> \<not> cutscene_triggered h \<and> score h < CUTSCENE_TRIGGER_SCORE
        \<and> update_game ks h = Inr h'
        \<longrightarrow> \<not> cutscene_triggered h' \<and> score h' = score h + 1)
   \<and> (state h = PLAYING \<and> \<not> cutscene_triggered h \<and> CUTSCENE_TRIGGER_SCORE \<le> score h
        \<longrightarrow> update_game ks h = Inr (trigger_cutscene h)
          \<and> state (trigger_cutscene h) = CUTSCENE
          \<and> cutscene_triggered (trigger_cutscene h)
          \<and> call_log (trigger_cutscene h) = call_log h @ [Cutscene_start_call])"
proof (intro conjI)
  show "state g = MENU \<and> start_button_rect g = Some r \<and> Rect_bool r \<and> collidepoint r pos
        \<longrightarrow> handle_events [MOUSEBUTTONDOWN 1 pos] g = (True, start_game g)"
    using handle_events_start[of g r pos] by blast
  show "state h = PLAYING \<and> \<not> cutscene_triggered h \<and> score h < CUTSCENE_TRIGGER_SCORE
        \<and> update_game ks h = Inr h'
        \<longrightarrow> \<not> cutscene_triggered h' \<and> score h' = score h + 1"
    using update_game_normal(1,2)[of h ks h'] by blast
  show "state h = PLAYING \<and> \<not> cutscene_triggered h \<and> CUTSCENE_TRIGGER_SCORE \<le> score h
        \<longrightarrow> update_game ks h = Inr (trigger_cutscene h)
          \<and> state (trigger_cutscene h) = CUTSCENE
          \<and> cutscene_triggered (trigger_cutscene h)
          \<and> call_log (trigger_cutscene h) = call_log h @ [Cutscene_start_call]"
    using update_game_trigger[of h ks] trigger_cutscene_fields[of h] by blast
qed (simp_all add: start_game_fields)

theorem start_game_resets_cutscene_flag_witness:
  "cutscene_triggered (sample_menu_game\<lparr>cutscene_triggered := True, score := 2345, lives := 0\<rparr>)
   \<and> state (sample_menu_game\<lparr>cutscene_triggered := True, score := 2345, lives := 0\<rparr>) = MENU
   \<and> start_button_rect (sample_menu_game\<lparr>cutscene_triggered := True, score := 2345, lives := 0\<rparr>)
       = Some (pygame_Rect 350 310 200 80)
   \<and> Rect_bool (pygame_Rect 350 310 200 80)
   \<and> collidepoint (pygame_Rect 350 310 200 80) (450, 350)
   \<and> handle_events [MOUSEBUTTONDOWN 1 (450, 350)]
        (sample_menu_game\<lparr>cutscene_triggered := True, score := 2345, lives := 0\<rparr>)
      = (True, start_game (sample_menu_game\<lparr>cutscene_triggered := True, score := 2345, lives := 0\<rparr>))
   \<and> \<not> cutscene_triggered
          (start_game (sample_menu_game\<lparr>cutscene_triggered := True, score := 2345, lives := 0\<rparr>))
   \<and> state (start_game (sample_menu_game\<lparr>cutscene_triggered := True, score := 2345, lives := 0\<rparr>))
       = PLAYING
   \<and> (\<exists>h'. update_game no_keys
               (start_game (sample_menu_game\<lparr>cutscene_triggered := True, score := 2345, lives := 0\<rparr>))
              = Inr h'
          \<and> \<not> cutscene_triggered h' \<and> score h' = 1)
   \<and> state sample_game_at_trigger = PLAYING \<and> \<not> cutscene_triggered sample_game_at_trigger
   \<and> CUTSCENE_TRIGGER_SCORE \<le> score sample_game_at_trigger
   \<and> update_game no_keys sample_game_at_trigger = Inr (trigger_cutscene sample_game_at_trigger)
   \<and> state (trigger_cutscene sample_game_at_trigger) = CUTSCENE"
proof -
  let ?m = "sample_menu_game\<lparr>cutscene_triggered := True, score := 2345, lives := 0\<rparr>"
  have m: "cutscene_triggered ?m" "state ?m = MENU"
    "start_button_rect ?m = Some (pygame_Rect 350 310 200 80)"
    "Rect_bool (pygame_Rect 350 310 200 80)"
    "collidepoint (pygame_Rect 350 310 200 80) (450, 350)"
    by (simp_all add: sample_menu_game_def Rect_bool_def collidepoint_def pygame_Rect_def)
  have q: "0 < n_frames (player (start_game ?m))" "100 \<le> SCREEN_WIDTH (start_game ?m)"
    "100 \<le> SCREEN_HEIGHT (start_game ?m)"
    by (simp_all add: start_game_def sample_menu_game_def sample_game_def sample_player_def)
  from update_game_total[OF q] obtain h' where u: "update_game no_keys (start_game ?m) = Inr h'"
    by blast
  have b: "state sample_game_at_trigger = PLAYING" "\<not> cutscene_triggered sample_game_at_trigger"
    "CUTSCENE_TRIGGER_SCORE \<le> score sample_game_at_trigger"
    by (simp_all add: sample_game_at_trigger_def sample_game_def)
  note t1 = start_game_resets_cutscene_flag
              [of ?m "pygame_Rect 350 310 200 80" "(450, 350)" "start_game ?m" no_keys h']
  note t2 = start_game_resets_cutscene_flag
              [of ?m "pygame_Rect 350 310 200 80" "(450, 350)" sample_game_at_trigger no_keys h']
  from t1 m have s: "\<not> cutscene_triggered (start_game ?m)" "state (start_game ?m) = PLAYING"
    "score (start_game ?m) = 0"
    "handle_events [MOUSEBUTTONDOWN 1 (450, 350)] ?m = (True, start_game ?m)"
    by blast+
  from t1 s u have "\<not> cutscene_triggered h' \<and> score h' = 1"
    by simp
  moreover from t2 b
  have "update_game no_keys sample_game_at_trigger = Inr (trigger_cutscene sample_game_at_trigger)
        \<and> state (trigger_cutscene sample_game_at_trigger) = CUTSCENE"
    by blast
  ultimately show ?thesis using m s u b by blast
qed

end
